theory Spec2Isabelle
  imports Main "HOL-Library.Word"
begin

unbundle bit_operations_syntax

section \<open>The minimal shell: the line buffer\<close>

text \<open>
  The shell of \<^verbatim>\<open>fork_exec_wait_redirect.c\<close> (second program of the file) keeps one
  buffer \<^verbatim>\<open>char buf[MAXLINE]\<close>. Bytes are \<^typ>\<open>char\<close>, the buffer is a list of
  \<^verbatim>\<open>MAXLINE\<close> bytes, and a C string inside it ends at its first NUL byte.
\<close>

definition MAXLINE :: nat where
  "MAXLINE = 100"

definition NUL :: char where
  "NUL = CHR 0x00"

definition newline :: char where
  "newline = CHR 0x0A"

text \<open>
  \<^verbatim>\<open>fgets(buf, n, stdin)\<close> takes at most \<open>n - 1\<close> bytes from the stream and stops
  after a newline. \<open>take_line\<close> is the run of bytes it takes.
\<close>

fun take_line :: "nat \<Rightarrow> string \<Rightarrow> string" where
  "take_line 0 cs = []"
| "take_line (Suc k) [] = []"
| "take_line (Suc k) (c # cs) = (if c = newline then [c] else c # take_line k cs)"

text \<open>
  The result of \<^verbatim>\<open>fgets\<close>: \<open>None\<close> is the NULL it returns at end of input with
  nothing read (the buffer is then left alone); otherwise the bytes taken and the rest of
  the stream.
\<close>

definition fgets :: "nat \<Rightarrow> string \<Rightarrow> (string \<times> string) option" where
  "fgets n inp =
     (if inp = [] then None
      else Some (take_line (n - 1) inp, drop (length (take_line (n - 1) inp)) inp))"

text \<open>
  \<^verbatim>\<open>fgets\<close> stores the bytes at the start of the buffer and a NUL after them; what
  lies behind that NUL keeps its old value.
\<close>

definition store_line :: "string \<Rightarrow> string \<Rightarrow> string" where
  "store_line buf got = got @ NUL # drop (Suc (length got)) buf"

definition strlen :: "string \<Rightarrow> nat" where
  "strlen buf = length (takeWhile (\<lambda>c. c \<noteq> NUL) buf)"

text \<open>The C string a buffer holds: its bytes before the first NUL.\<close>

definition c_string :: "string \<Rightarrow> string" where
  "c_string buf = takeWhile (\<lambda>c. c \<noteq> NUL) buf"

text \<open>
  The subscript of \<^verbatim>\<open>buf[strlen(buf) - 1]\<close>. \<^verbatim>\<open>strlen\<close> returns a \<^verbatim>\<open>size_t\<close>; for
  the length 0 the subtraction wraps to \<^verbatim>\<open>SIZE_MAX\<close>, and \<^verbatim>\<open>buf + SIZE_MAX\<close> is the
  address of the byte just before the buffer. The offset of the byte that is accessed,
  counted from \<^verbatim>\<open>buf\<close>, is therefore \<open>strlen buf - 1\<close> as an integer, \<open>-1\<close> included.
\<close>

definition strip_index :: "string \<Rightarrow> int" where
  "strip_index buf = int (strlen buf) - 1"

datatype fault = Out_of_bounds int

text \<open>
  The housekeeping statement
  \<^verbatim>\<open>if (buf[strlen(buf) - 1] == '\n') buf[strlen(buf) - 1] = '\0';\<close>
  An access outside \<^verbatim>\<open>buf[0 .. MAXLINE - 1]\<close> is undefined in C; the model reports it
  as a \<open>fault\<close> with the offset, and says nothing about what follows.
\<close>

definition strip_newline :: "string \<Rightarrow> fault + string" where
  "strip_newline buf =
     (let i = strip_index buf in
      if i < 0 \<or> int (length buf) \<le> i then Inl (Out_of_bounds i)
      else if buf ! nat i = newline then Inr (buf[nat i := NUL])
      else Inr buf)"

section \<open>The minimal shell: processes\<close>

text \<open>
  The shell is the second program of \<^verbatim>\<open>fork_exec_wait_redirect.c\<close>. After \<^verbatim>\<open>fork\<close> two
  processes run and the kernel schedules them as it likes, so the shell is modelled as a
  machine that moves one statement at a time: a state holds the shell (the parent), its
  children and the input still unread, and a schedule says whose turn it is. What the
  operating system decides (whether \<^verbatim>\<open>fork\<close> fails, what \<^verbatim>\<open>execvp\<close> finds, what the
  loaded program does) is a parameter.

  A process identifier.
\<close>

type_synonym pid = nat

text \<open>
  How a process ended: \<^verbatim>\<open>exit(n)\<close>, or a signal.
\<close>

datatype disposition = Exit_code nat | Killed_by nat

text \<open>
  The process that acts: the program's own process, or the child with that identifier.
\<close>

datatype who = Parent | Child pid

text \<open>
  What can be observed of a run, in the order it happens: a \<^verbatim>\<open>printf\<close> or
  \<^verbatim>\<open>fprintf\<close> (by whom, on which descriptor, which text; the streams are taken as
  unbuffered), a \<^verbatim>\<open>fork\<close> that made a child, the call of \<^verbatim>\<open>execvp\<close> with its file
  and its argument vector (the strings before the terminating NULL), the end of a child,
  and the return of \<^verbatim>\<open>wait\<close> with the child it reaped.
\<close>

datatype event =
    Printed who nat string
  | Spawned pid
  | Called_execvp pid string "string list"
  | Terminated pid disposition
  | Reaped pid

text \<open>
  What a program loaded by \<^verbatim>\<open>execvp\<close> does, as far as the shell can see it: the texts it
  writes, each on a descriptor, and how it ends. A program that runs forever has every
  finite run in common with one that stops later.
\<close>

datatype image = Image "(nat \<times> string) list" disposition

text \<open>
  The operating system's answers: does the call of \<^verbatim>\<open>fork\<close> that comes after \<open>n\<close>
  earlier ones fail, and the image \<^verbatim>\<open>execvp\<close> finds for a file and an argument vector
  (\<open>None\<close> when it returns: not found, not executable).
\<close>

record os =
  fork_fails :: "nat \<Rightarrow> bool"
  loader :: "string \<Rightarrow> string list \<Rightarrow> image option"

text \<open>
  \<^verbatim>\<open>execvp(file, argv)\<close>: an empty file name is never found (\<^verbatim>\<open>ENOENT\<close>), whatever
  the system holds; any other name is looked up by the system.
\<close>

definition execvp :: "'a os_scheme \<Rightarrow> string \<Rightarrow> string list \<Rightarrow> image option" where
  "execvp E file argv = (if file = [] then None else loader E file argv)"

text \<open>
  The statements of the shell's \<^verbatim>\<open>main\<close> at which the parent can stand: the first
  \<^verbatim>\<open>printf("%% ")\<close>, the \<^verbatim>\<open>fgets\<close> of the loop condition, the strip of the newline,
  \<^verbatim>\<open>fork\<close>, the two statements of the branch \<^verbatim>\<open>rc < 0\<close>, \<^verbatim>\<open>wait(NULL)\<close>, the
  \<^verbatim>\<open>printf("%% ")\<close> behind it, the final \<^verbatim>\<open>exit(0)\<close>; then the ended process with its
  exit code, and the state after an access outside the buffer, about which C says nothing.
\<close>

datatype ploc =
    At_first_prompt
  | At_fgets
  | At_strip
  | At_fork
  | At_fork_error
  | At_exit_1
  | At_wait
  | At_prompt
  | At_exit_0
  | Exited nat
  | Undefined fault

text \<open>
  The child. It starts in the branch \<^verbatim>\<open>rc == 0\<close> with its own copy of the buffer, in
  front of \<^verbatim>\<open>execvp(buf, argv)\<close>; when that returns it stands at
  \<^verbatim>\<open>fprintf(stderr, "exec error\n")\<close>, then at \<^verbatim>\<open>exit(1)\<close>. After a successful
  \<^verbatim>\<open>execvp\<close> it is the loaded image, with the writes it has left. A child that has
  ended stays a zombie until \<^verbatim>\<open>wait\<close> reaps it.
\<close>

datatype cloc =
    At_execvp string
  | At_exec_error
  | At_child_exit
  | Running "(nat \<times> string) list" disposition
  | Zombie disposition

text \<open>
  The state: where the parent stands, its variables \<^verbatim>\<open>buf\<close> and \<^verbatim>\<open>rc\<close>, the unread
  input, the children not yet reaped, the number of \<^verbatim>\<open>fork\<close> calls so far (the
  child made by the \<open>n\<close>-th call gets the identifier \<open>n\<close>, so identifiers are positive
  and never reused), and the events so far.
\<close>

record sys =
  ploc :: ploc
  buf :: string
  rc :: int
  stdin :: string
  children :: "(pid \<times> cloc) list"
  forks :: nat
  events :: "event list"

definition STDOUT_FILENO :: nat where
  "STDOUT_FILENO = 1"

definition STDERR_FILENO :: nat where
  "STDERR_FILENO = 2"

text \<open>
  \<^verbatim>\<open>printf("%% ")\<close> prints a percent sign and a blank.
\<close>

definition prompt :: string where
  "prompt = ''% ''"

fun is_zombie :: "pid \<times> cloc \<Rightarrow> bool" where
  "is_zombie (p, Zombie d) = True"
| "is_zombie (p, c) = False"

text \<open>
  One statement of the parent. \<^verbatim>\<open>fork\<close> has three outcomes: on failure \<^verbatim>\<open>rc\<close> is
  \<open>-1\<close> and the parent goes to \<^verbatim>\<open>fprintf(stderr, "Fork error\n"); exit(1);\<close>; on
  success the child exists with a copy of \<^verbatim>\<open>buf\<close>, \<^verbatim>\<open>rc\<close> is its identifier and the
  parent goes to \<^verbatim>\<open>wait(NULL)\<close>. \<^verbatim>\<open>wait(NULL)\<close> returns with any child that has
  ended and removes it; while children exist and none has ended it blocks (the state does
  not move); without children it fails at once, and the shell ignores its result.
\<close>

definition shell_turn :: "os \<Rightarrow> sys \<Rightarrow> sys" where
  "shell_turn E s =
     (case ploc s of
        At_first_prompt \<Rightarrow>
          s\<lparr>events := events s @ [Printed Parent STDOUT_FILENO prompt], ploc := At_fgets\<rparr>
      | At_fgets \<Rightarrow>
          (case fgets MAXLINE (stdin s) of
             None \<Rightarrow> s\<lparr>ploc := At_exit_0\<rparr>
           | Some (got, rest) \<Rightarrow>
               s\<lparr>buf := store_line (buf s) got, stdin := rest, ploc := At_strip\<rparr>)
      | At_strip \<Rightarrow>
          (case strip_newline (buf s) of
             Inl f \<Rightarrow> s\<lparr>ploc := Undefined f\<rparr>
           | Inr b \<Rightarrow> s\<lparr>buf := b, ploc := At_fork\<rparr>)
      | At_fork \<Rightarrow>
          (if fork_fails E (forks s)
           then s\<lparr>rc := - 1, forks := Suc (forks s), ploc := At_fork_error\<rparr>
           else s\<lparr>rc := int (Suc (forks s)), forks := Suc (forks s),
                  children := children s @ [(Suc (forks s), At_execvp (buf s))],
                  events := events s @ [Spawned (Suc (forks s))], ploc := At_wait\<rparr>)
      | At_fork_error \<Rightarrow>
          s\<lparr>events := events s @ [Printed Parent STDERR_FILENO (''Fork error'' @ [newline])],
            ploc := At_exit_1\<rparr>
      | At_exit_1 \<Rightarrow> s\<lparr>ploc := Exited 1\<rparr>
      | At_wait \<Rightarrow>
          (case filter is_zombie (children s) of
             (p, c) # zs \<Rightarrow>
               s\<lparr>children := filter (\<lambda>e. fst e \<noteq> p) (children s),
                 events := events s @ [Reaped p], ploc := At_prompt\<rparr>
           | [] \<Rightarrow> if children s = [] then s\<lparr>ploc := At_prompt\<rparr> else s)
      | At_prompt \<Rightarrow>
          s\<lparr>events := events s @ [Printed Parent STDOUT_FILENO prompt], ploc := At_fgets\<rparr>
      | At_exit_0 \<Rightarrow> s\<lparr>ploc := Exited 0\<rparr>
      | Exited c \<Rightarrow> s
      | Undefined f \<Rightarrow> s)"

text \<open>
  One statement of a child. \<^verbatim>\<open>argv[0] = buf; argv[1] = NULL; execvp(buf, argv);\<close>
  passes the C string of the buffer as the file to look up and as the only element of
  the argument vector.
\<close>

fun child_step :: "os \<Rightarrow> pid \<Rightarrow> cloc \<Rightarrow> cloc \<times> event list" where
  "child_step E p (At_execvp b) =
     (case execvp E (c_string b) [c_string b] of
        Some (Image ws d) \<Rightarrow> (Running ws d, [Called_execvp p (c_string b) [c_string b]])
      | None \<Rightarrow> (At_exec_error, [Called_execvp p (c_string b) [c_string b]]))"
| "child_step E p At_exec_error =
     (At_child_exit, [Printed (Child p) STDERR_FILENO (''exec error'' @ [newline])])"
| "child_step E p At_child_exit = (Zombie (Exit_code 1), [Terminated p (Exit_code 1)])"
| "child_step E p (Running ((fd, msg) # ws) d) = (Running ws d, [Printed (Child p) fd msg])"
| "child_step E p (Running [] d) = (Zombie d, [Terminated p d])"
| "child_step E p (Zombie d) = (Zombie d, [])"

text \<open>
  The turn of the child \<open>p\<close>; nothing happens when the shell has no such child.
\<close>

definition child_turn :: "os \<Rightarrow> pid \<Rightarrow> sys \<Rightarrow> sys" where
  "child_turn E p s =
     (case map_of (children s) p of
        None \<Rightarrow> s
      | Some c \<Rightarrow>
          s\<lparr>children := map (\<lambda>e. if fst e = p then (p, fst (child_step E p c)) else e) (children s),
            events := events s @ snd (child_step E p c)\<rparr>)"

text \<open>
  A schedule is a list of turns; \<open>run\<close> follows it. Every state the system can reach
  is the result of some schedule.
\<close>

datatype turn = Run_shell | Run_child pid

fun sys_step :: "os \<Rightarrow> turn \<Rightarrow> sys \<Rightarrow> sys" where
  "sys_step E Run_shell s = shell_turn E s"
| "sys_step E (Run_child p) s = child_turn E p s"

fun run :: "os \<Rightarrow> turn list \<Rightarrow> sys \<Rightarrow> sys" where
  "run E [] s = s"
| "run E (t # ts) s = run E ts (sys_step E t s)"

text \<open>
  The shell at the start of \<^verbatim>\<open>main\<close>: \<^verbatim>\<open>buf\<close> and \<^verbatim>\<open>rc\<close> hold whatever the stack
  held, and the process has no child yet (a process that was handed children by the
  program it replaced is not considered).
\<close>

definition boot :: "string \<Rightarrow> string \<Rightarrow> int \<Rightarrow> sys" where
  "boot inp junk r =
     \<lparr>ploc = At_first_prompt, buf = junk, rc = r, stdin = inp, children = [], forks = 0,
      events = []\<rparr>"

text \<open>
  The order of events claimed for every iteration: a child is spawned only when none is
  outstanding, it ends, \<^verbatim>\<open>wait\<close> returns it, and only then the parent prints again.
  \<open>watch_all\<close> follows a list of events and is \<open>None\<close> as soon as an event comes
  out of that order.
\<close>

datatype watch = Idle | Alive pid | Ended pid

fun watch_event :: "watch \<Rightarrow> event \<Rightarrow> watch option" where
  "watch_event w (Spawned p) = (if w = Idle then Some (Alive p) else None)"
| "watch_event w (Terminated p d) = Some (if w = Alive p then Ended p else w)"
| "watch_event w (Reaped p) = (if w = Ended p then Some Idle else None)"
| "watch_event w (Printed Parent fd msg) = (if w = Idle then Some w else None)"
| "watch_event w (Printed (Child p) fd msg) = Some w"
| "watch_event w (Called_execvp p f a) = Some w"

fun watch_all :: "watch \<Rightarrow> event list \<Rightarrow> watch option" where
  "watch_all w [] = Some w"
| "watch_all w (e # es) = (case watch_event w e of None \<Rightarrow> None | Some w' \<Rightarrow> watch_all w' es)"

text \<open>
  The invariant that ties a state to its events: while the parent stands at \<^verbatim>\<open>wait\<close>
  it has exactly one child, the one spawned last; everywhere else it has none.
\<close>

fun linked :: "ploc \<Rightarrow> (pid \<times> cloc) list \<Rightarrow> watch \<Rightarrow> bool" where
  "linked At_wait [(p, Zombie d)] w = (w = Ended p)"
| "linked At_wait [(p, c)] w = (w = Alive p)"
| "linked At_wait cs w = False"
| "linked l [] w = (w = Idle)"
| "linked l cs w = False"

definition shell_inv :: "sys \<Rightarrow> bool" where
  "shell_inv s = (\<exists>w. watch_all Idle (events s) = Some w \<and> linked (ploc s) (children s) w)"

text \<open>
  The whitespace characters of C's \<^verbatim>\<open>isspace\<close>.
\<close>

definition isspace :: "char \<Rightarrow> bool" where
  "isspace c = (c \<in> {CHR '' '', CHR 0x09, CHR 0x0A, CHR 0x0B, CHR 0x0C, CHR 0x0D})"

text \<open>
  The specification's wording of the program name: the first whitespace-free token of the
  line. This definition follows the specification, not the code.
\<close>

definition spec_first_token :: "string \<Rightarrow> string" where
  "spec_first_token raw = takeWhile (\<lambda>c. \<not> isspace c) (dropWhile isspace raw)"

text \<open>
  A string less its final newline, when it has one; and the command the shell runs for
  the bytes \<^verbatim>\<open>fgets\<close> returned: those before the first NUL byte, less a final newline.
\<close>

definition chomp :: "string \<Rightarrow> string" where
  "chomp cs = (if cs \<noteq> [] \<and> last cs = newline then butlast cs else cs)"

definition read_command :: "string \<Rightarrow> string" where
  "read_command got = chomp (takeWhile (\<lambda>c. c \<noteq> NUL) got)"

text \<open>
  The buffer after \<^verbatim>\<open>fgets\<close> stored \<open>line\<close> and its newline and the newline was
  overwritten.
\<close>

definition stripped :: "string \<Rightarrow> string \<Rightarrow> string" where
  "stripped b line = (store_line b (line @ [newline]))[length line := NUL]"

text \<open>
  Sample environments and states: a system where every \<^verbatim>\<open>fork\<close> succeeds and no program
  can be loaded, one where every named program can be loaded, one where \<^verbatim>\<open>fork\<close> fails,
  a buffer of NUL bytes, the shell just after its first prompt, and the shell in front of
  \<^verbatim>\<open>fork\<close> after it has read an empty line.
\<close>

definition env0 :: os where
  "env0 = \<lparr>fork_fails = (\<lambda>n. False), loader = (\<lambda>f a. None)\<rparr>"


definition env_no_fork :: os where
  "env_no_fork = \<lparr>fork_fails = (\<lambda>n. True), loader = (\<lambda>f a. None)\<rparr>"

definition blank :: string where
  "blank = replicate MAXLINE NUL"

definition prompted :: "string \<Rightarrow> sys" where
  "prompted inp =
     (boot inp blank 0)\<lparr>ploc := At_fgets, events := [Printed Parent STDOUT_FILENO prompt]\<rparr>"

definition at_fork_empty :: sys where
  "at_fork_empty = (prompted [newline])\<lparr>ploc := At_fork, buf := stripped blank [], stdin := []\<rparr>"

section \<open>The redirecting program\<close>

text \<open>
  The first program of \<^verbatim>\<open>fork_exec_wait_redirect.c\<close> forks once; the child closes its
  standard output, opens \<^verbatim>\<open>wc_output.txt\<close> and replaces itself by \<^verbatim>\<open>wc\<close>; the parent
  waits. Descriptor tables and files are modelled as POSIX describes them.

  The error numbers used here.
\<close>

datatype errno = EACCES | EBADF | EEXIST | EINVAL | EMFILE | ENOENT

text \<open>
  An open file description: the terminal, or a file with its access mode and offset.
  A descriptor table has a fixed number of slots; a slot is free or holds a description.
\<close>

datatype access = Read_only | Write_only | Read_write

datatype chan = Terminal | File_at string access nat

type_synonym fdtable = "chan option list"

text \<open>
  A regular file: its permission bits and its contents. The file system maps paths to
  files.
\<close>

record regfile =
  perms :: "32 word"
  bytes :: string

type_synonym filesys = "string \<Rightarrow> regfile option"

text \<open>
  The flags of \<^verbatim>\<open><fcntl.h>\<close> that the program and the kernel use. Their values belong
  to the platform, not to the program, so they are a parameter; \<open>linux\<close> holds the
  values of Linux (octal 0100, 0200, 01000 for \<^verbatim>\<open>O_CREAT\<close>, \<^verbatim>\<open>O_EXCL\<close>,
  \<^verbatim>\<open>O_TRUNC\<close>) and \<open>bsd\<close> those of the BSD family (hexadecimal 200, 800, 400).
  Flags and modes are 32-bit words.
\<close>

record fcntl_h =
  O_ACCMODE :: "32 word"
  O_RDONLY :: "32 word"
  O_WRONLY :: "32 word"
  O_RDWR :: "32 word"
  O_CREAT :: "32 word"
  O_EXCL :: "32 word"
  O_TRUNC :: "32 word"

definition linux :: fcntl_h where
  "linux = \<lparr>O_ACCMODE = 0x3, O_RDONLY = 0x0, O_WRONLY = 0x1, O_RDWR = 0x2, O_CREAT = 0x40,
             O_EXCL = 0x80, O_TRUNC = 0x200\<rparr>"

definition bsd :: fcntl_h where
  "bsd = \<lparr>O_ACCMODE = 0x3, O_RDONLY = 0x0, O_WRONLY = 0x1, O_RDWR = 0x2, O_CREAT = 0x200,
           O_EXCL = 0x800, O_TRUNC = 0x400\<rparr>"

text \<open>
  The permission bits of \<^verbatim>\<open><sys/stat.h>\<close>, whose values POSIX fixes: octal 0700 for
  the owner's three bits, 0400 for the owner's read bit and 0200 for the owner's write
  bit.
\<close>

definition S_IRWXU :: "32 word" where
  "S_IRWXU = 0x1C0"

definition S_IRUSR :: "32 word" where
  "S_IRUSR = 0x100"

definition S_IWUSR :: "32 word" where
  "S_IWUSR = 0x80"

text \<open>
  The environment of one run of the redirecting program: besides the answers of
  \<^verbatim>\<open>fork\<close> and \<^verbatim>\<open>execvp\<close>, the file creation mask, the value \<^verbatim>\<open>open\<close> finds where
  its third argument would be when the caller passed none, and the process identifier of
  the program itself.
\<close>

record host = os +
  mask :: "32 word"
  stray :: "32 word"
  self :: pid

definition STDIN_FILENO :: nat where
  "STDIN_FILENO = 0"

text \<open>
  \<^verbatim>\<open>close(fd)\<close>: the slot becomes free; a descriptor that is not open gives
  \<^verbatim>\<open>EBADF\<close>.
\<close>

definition sys_close :: "nat \<Rightarrow> fdtable \<Rightarrow> (errno + unit) \<times> fdtable" where
  "sys_close fd t =
     (if fd < length t \<and> t ! fd \<noteq> None then (Inr (), t[fd := None]) else (Inl EBADF, t))"

text \<open>
  The lowest-numbered free slot of a table, which is the descriptor the next \<^verbatim>\<open>open\<close>
  returns.
\<close>

fun first_free :: "nat \<Rightarrow> fdtable \<Rightarrow> nat option" where
  "first_free i [] = None"
| "first_free i (None # es) = Some i"
| "first_free i (Some c # es) = first_free (Suc i) es"

definition lowest_free :: "fdtable \<Rightarrow> nat option" where
  "lowest_free t = first_free 0 t"

text \<open>
  The kernel's reading of a flag word: a flag is set when its bit is, and the access mode
  is the value under \<^verbatim>\<open>O_ACCMODE\<close>.
\<close>

definition has_flag :: "32 word \<Rightarrow> 32 word \<Rightarrow> bool" where
  "has_flag flags b = (flags AND b \<noteq> 0)"

definition access_of :: "fcntl_h \<Rightarrow> 32 word \<Rightarrow> access option" where
  "access_of K flags =
     (if flags AND O_ACCMODE K = O_RDONLY K then Some Read_only
      else if flags AND O_ACCMODE K = O_WRONLY K then Some Write_only
      else if flags AND O_ACCMODE K = O_RDWR K then Some Read_write
      else None)"

text \<open>
  The owner's permission bits allow an access mode: reading needs the read bit, writing
  the write bit.
\<close>

definition may_open :: "regfile \<Rightarrow> access \<Rightarrow> bool" where
  "may_open f acc =
     ((acc = Write_only \<or> has_flag (perms f) S_IRUSR) \<and>
      (acc = Read_only \<or> has_flag (perms f) S_IWUSR))"

text \<open>
  \<^verbatim>\<open>open(path, flags)\<close> or \<^verbatim>\<open>open(path, flags, mode)\<close>, with the creation mask and the
  stray value that stands in for a mode that was not passed. A descriptor is allocated
  first (\<^verbatim>\<open>EMFILE\<close> when the table is full). A missing file is created empty when
  \<^verbatim>\<open>O_CREAT\<close> is set, with the permission bits of the mode less those of the mask, and
  is an error \<^verbatim>\<open>ENOENT\<close> otherwise. An existing file is refused with \<^verbatim>\<open>EEXIST\<close> when
  \<^verbatim>\<open>O_CREAT\<close> and \<^verbatim>\<open>O_EXCL\<close> are both set, is refused with \<^verbatim>\<open>EACCES\<close> when its
  permission bits do not allow the access asked for (the process is taken to own the
  file and to have no privilege), and is cut to length 0 when \<^verbatim>\<open>O_TRUNC\<close> is set and
  the access mode allows writing. The new description starts at offset 0.
\<close>

definition sys_open ::
  "fcntl_h \<Rightarrow> 32 word \<Rightarrow> 32 word \<Rightarrow> string \<Rightarrow> 32 word \<Rightarrow> 32 word option \<Rightarrow> filesys \<Rightarrow> fdtable
     \<Rightarrow> (errno + nat) \<times> filesys \<times> fdtable" where
  "sys_open K um junk path flags mode fs t =
     (case access_of K flags of
        None \<Rightarrow> (Inl EINVAL, fs, t)
      | Some acc \<Rightarrow>
          (case lowest_free t of
             None \<Rightarrow> (Inl EMFILE, fs, t)
           | Some fd \<Rightarrow>
               (case fs path of
                  None \<Rightarrow>
                    if has_flag flags (O_CREAT K)
                    then (Inr fd,
                          fs(path \<mapsto> \<lparr>perms = (case mode of Some m \<Rightarrow> m | None \<Rightarrow> junk)
                                               AND 0xFFF AND NOT um,
                                      bytes = []\<rparr>),
                          t[fd := Some (File_at path acc 0)])
                    else (Inl ENOENT, fs, t)
                | Some f \<Rightarrow>
                    if has_flag flags (O_CREAT K) \<and> has_flag flags (O_EXCL K)
                    then (Inl EEXIST, fs, t)
                    else if \<not> may_open f acc then (Inl EACCES, fs, t)
                    else (Inr fd,
                          if has_flag flags (O_TRUNC K) \<and> acc \<noteq> Read_only
                          then fs(path \<mapsto> f\<lparr>bytes := []\<rparr>) else fs,
                          t[fd := Some (File_at path acc 0)]))))"

text \<open>
  The contents of a file after \<open>data\<close> was written at offset \<open>pos\<close>; a gap behind
  the old end is filled with NUL bytes.
\<close>

definition put_at :: "nat \<Rightarrow> string \<Rightarrow> string \<Rightarrow> string" where
  "put_at pos data old =
     take pos (old @ replicate (pos - length old) NUL) @ data @ drop (pos + length data) old"

text \<open>
  What one process of the redirecting program sees: its descriptor table, the file
  system, and the events so far. A write on the terminal is an event \<open>Printed\<close>; a
  write on a file changes the file and moves the offset; a write on a closed descriptor
  or on one opened for reading only fails and changes nothing.
\<close>

record machine =
  table :: fdtable
  disk :: filesys
  trace :: "event list"

definition sys_write :: "who \<Rightarrow> nat \<Rightarrow> string \<Rightarrow> machine \<Rightarrow> machine" where
  "sys_write w fd msg m =
     (if length (table m) \<le> fd then m
      else case table m ! fd of
        None \<Rightarrow> m
      | Some Terminal \<Rightarrow> m\<lparr>trace := trace m @ [Printed w fd msg]\<rparr>
      | Some (File_at path acc pos) \<Rightarrow>
          (if acc = Read_only then m
           else case disk m path of
             None \<Rightarrow> m
           | Some f \<Rightarrow>
               m\<lparr>table := (table m)[fd := Some (File_at path acc (pos + length msg))],
                 disk := (disk m)(path \<mapsto> f\<lparr>bytes := put_at pos msg (bytes f)\<rparr>)\<rparr>))"

fun write_all :: "who \<Rightarrow> (nat \<times> string) list \<Rightarrow> machine \<Rightarrow> machine" where
  "write_all w [] m = m"
| "write_all w ((fd, msg) # ws) m = write_all w ws (sys_write w fd msg m)"

text \<open>
  \<^verbatim>\<open>%ld\<close> prints a process identifier in decimal.
\<close>

definition digit :: "nat \<Rightarrow> char" where
  "digit d = ''0123456789'' ! d"

fun decimal :: "nat \<Rightarrow> string" where
  "decimal n = (if n < 10 then [digit n] else decimal (n div 10) @ [digit (n mod 10)])"

declare decimal.simps [simp del]

text \<open>
  The result of the child: what its \<^verbatim>\<open>open\<close> returned, the process as it stood when
  \<^verbatim>\<open>execvp\<close> was called, the process at its end, and how it ended.
\<close>

record child_end =
  opened :: "errno + nat"
  at_exec :: machine
  finish :: machine
  ended :: disposition

text \<open>
  The second argument of
  \<^verbatim>\<open>open("wc_output.txt", O_RDWR | O_CREAT | O_TRUNC | S_IRWXU)\<close>. The call has two
  arguments: \<^verbatim>\<open>S_IRWXU\<close> is part of the flag word and no mode is passed.
\<close>

definition open_flags :: "fcntl_h \<Rightarrow> 32 word" where
  "open_flags K = O_RDWR K OR O_CREAT K OR O_TRUNC K OR S_IRWXU"

text \<open>
  \<^verbatim>\<open>close(STDOUT_FILENO); open("wc_output.txt", ...);\<close> The results of both calls are
  dropped by the program; the model keeps the one of \<^verbatim>\<open>open\<close> to talk about it.
\<close>

definition redirect_stdout :: "fcntl_h \<Rightarrow> host \<Rightarrow> machine \<Rightarrow> (errno + nat) \<times> machine" where
  "redirect_stdout K H m =
     (let t1 = snd (sys_close STDOUT_FILENO (table m));
          (r, fs2, t2) = sys_open K (mask H) (stray H) ''wc_output.txt'' (open_flags K) None
                           (disk m) t1
      in (r, m\<lparr>table := t2, disk := fs2\<rparr>))"

text \<open>
  \<^verbatim>\<open>argv[0] = "wc"; argv[1] = "fork_wait_exec_redirect.c"; argv[2] = NULL;\<close>
\<close>

definition wc_argv :: "string list" where
  "wc_argv = [''wc'', ''fork_wait_exec_redirect.c'']"

text \<open>
  The branch \<^verbatim>\<open>rc == 0\<close>: redirect, then \<^verbatim>\<open>execvp("wc", argv)\<close>. On success the
  process is \<^verbatim>\<open>wc\<close> and makes its writes on the table as it stands;
  when \<^verbatim>\<open>execvp\<close> returns, \<^verbatim>\<open>fprintf(stderr, "exec failed\n"); exit(1);\<close>
\<close>

definition redirect_child :: "fcntl_h \<Rightarrow> host \<Rightarrow> pid \<Rightarrow> machine \<Rightarrow> child_end" where
  "redirect_child K H p m =
     (let (r, m1) = redirect_stdout K H m;
          m2 = m1\<lparr>trace := trace m1 @ [Called_execvp p ''wc'' wc_argv]\<rparr>
      in case execvp H ''wc'' wc_argv of
           Some (Image ws d) \<Rightarrow>
             \<lparr>opened = r, at_exec = m2, finish = write_all (Child p) ws m2, ended = d\<rparr>
         | None \<Rightarrow>
             \<lparr>opened = r, at_exec = m2,
              finish = sys_write (Child p) STDERR_FILENO (''exec failed'' @ [newline]) m2,
              ended = Exit_code 1\<rparr>)"

text \<open>
  The whole program, with the exit code of the parent. The parent prints its greeting;
  when \<^verbatim>\<open>fork\<close> fails it prints \<^verbatim>\<open>fork failed\<close> on standard error and exits with 1;
  otherwise the child runs on a copy of the parent's table, \<^verbatim>\<open>wait\<close> returns once the
  child has ended, and the parent prints its summary and exits with 0. Between
  \<^verbatim>\<open>fork\<close> and the return of \<^verbatim>\<open>wait\<close> the parent does nothing, so the child's
  events are placed there.
\<close>

definition redirect_main :: "fcntl_h \<Rightarrow> host \<Rightarrow> machine \<Rightarrow> machine \<times> nat" where
  "redirect_main K H m =
     (let m1 = sys_write Parent STDOUT_FILENO
                 (''hello (pid:'' @ decimal (self H) @ '')'' @ [newline]) m
      in if fork_fails H 0
         then (sys_write Parent STDERR_FILENO (''fork failed'' @ [newline]) m1, 1)
         else
           (let c = redirect_child K H (Suc 0) (m1\<lparr>trace := trace m1 @ [Spawned (Suc 0)]\<rparr>);
                m2 = m1\<lparr>disk := disk (finish c),
                       trace := trace (finish c) @ [Terminated (Suc 0) (ended c), Reaped (Suc 0)]\<rparr>
            in (sys_write Parent STDOUT_FILENO
                  (''parent of '' @ decimal (Suc 0) @ '' (rc_wait: '' @ decimal (Suc 0)
                     @ '') (pid: '' @ decimal (self H) @ '')'' @ [newline]) m2, 0)))"

text \<open>
  Sample environments: a table with the three standard descriptors on the terminal and
  \<open>n\<close> free slots, a host where \<^verbatim>\<open>wc\<close> prints the given text on its standard output
  and exits with 0 (creation mask octal 022, the stray mode as given), a process on a given
  file system, and a file system where \<^verbatim>\<open>wc_output.txt\<close> exists.
\<close>

definition standard_fds :: "nat \<Rightarrow> fdtable" where
  "standard_fds n = [Some Terminal, Some Terminal, Some Terminal] @ replicate n None"

definition wc_host :: "32 word \<Rightarrow> string \<Rightarrow> host" where
  "wc_host junk out =
     \<lparr>fork_fails = (\<lambda>n. False),
      loader = (\<lambda>f a. if f = ''wc'' then Some (Image [(STDOUT_FILENO, out)] (Exit_code 0)) else None),
      mask = 0x12, stray = junk, self = 100\<rparr>"

definition fresh_machine :: "filesys \<Rightarrow> machine" where
  "fresh_machine fs = \<lparr>table = standard_fds 5, disk = fs, trace = []\<rparr>"

definition old_disk :: filesys where
  "old_disk = Map.empty(''wc_output.txt'' \<mapsto> \<lparr>perms = 0x1C0, bytes = ''old''\<rparr>)"

section \<open>Properties of the line buffer\<close>

lemma length_take_line: "length (take_line k cs) \<le> k"
  by (induction k cs rule: take_line.induct) auto

lemma length_store_line:
  "length got < length b \<Longrightarrow> length (store_line b got) = length b"
  by (simp add: store_line_def)

lemma takeWhile_before_NUL:
  "takeWhile (\<lambda>c. c \<noteq> NUL) (got @ NUL # rest) = takeWhile (\<lambda>c. c \<noteq> NUL) got"
  by (induction got) auto

lemma c_string_store_line:
  "c_string (store_line b got) = takeWhile (\<lambda>c. c \<noteq> NUL) got"
  by (simp add: c_string_def store_line_def takeWhile_before_NUL)

lemma strlen_c_string: "strlen b = length (c_string b)"
  by (simp add: strlen_def c_string_def)

lemma strlen_le: "strlen b \<le> length b"
  by (simp add: strlen_def length_takeWhile_le)

lemma strlen_store_line: "strlen (store_line b got) \<le> length got"
  by (simp add: strlen_c_string c_string_store_line length_takeWhile_le)

lemma c_string_update_last:
  assumes "0 < strlen b"
  shows "c_string (b[strlen b - 1 := NUL]) = butlast (c_string b)"
proof -
  define p where "p = takeWhile (\<lambda>c. c \<noteq> NUL) b"
  define q where "q = dropWhile (\<lambda>c. c \<noteq> NUL) b"
  have b: "b = p @ q" by (simp add: p_def q_def)
  have len: "strlen b = length p" by (simp add: strlen_def p_def)
  with assms have "p \<noteq> []" by auto
  then obtain r x where p: "p = r @ [x]" by (metis rev_exhaust)
  have "\<forall>c \<in> set p. c \<noteq> NUL" unfolding p_def by (auto dest: set_takeWhileD)
  then have r: "\<forall>c \<in> set r. c \<noteq> NUL" by (simp add: p)
  have "strlen b - 1 = length r" by (simp add: len p)
  then have "b[strlen b - 1 := NUL] = (r @ x # q)[length r := NUL]"
    using b p by simp
  then have "b[strlen b - 1 := NUL] = r @ NUL # q"
    by (simp add: list_update_append)
  then have "c_string (b[strlen b - 1 := NUL]) = r"
    using r by (simp add: c_string_def takeWhile_append)
  moreover have "c_string b = p" by (simp add: c_string_def p_def)
  ultimately show ?thesis by (simp add: p)
qed

lemma c_string_last:
  assumes "0 < strlen b"
  shows "b ! (strlen b - 1) = last (c_string b)"
proof -
  have ne: "c_string b \<noteq> []" using assms by (auto simp: strlen_c_string)
  have "last (c_string b) = c_string b ! (strlen b - 1)"
    using ne by (simp add: last_conv_nth strlen_c_string)
  also have "\<dots> = b ! (strlen b - 1)"
    using assms unfolding c_string_def strlen_def by (simp add: takeWhile_nth)
  finally show ?thesis by simp
qed

lemma strip_newline_nonempty:
  assumes "c_string b \<noteq> []"
  shows "strip_newline b =
           Inr (if last (c_string b) = newline then b[strlen b - 1 := NUL] else b)"
proof -
  have pos: "0 < strlen b" using assms by (simp add: strlen_c_string)
  have idx: "nat (strip_index b) = strlen b - 1" "0 \<le> strip_index b"
    "strip_index b < int (length b)"
    using pos strlen_le [of b] by (auto simp: strip_index_def)
  show ?thesis
    using idx c_string_last [OF pos] by (simp add: strip_newline_def Let_def)
qed

text \<open>
  C10. The strip of the trailing newline reads the buffer at offset
  \<open>strlen buf - 1\<close> without looking at the length. Whenever \<^verbatim>\<open>fgets\<close> has stored a
  line whose C string is not empty, that offset lies inside the buffer and the statement
  leaves the string as it is or removes exactly its final newline; for the input line
  that starts with a NUL byte the offset is \<open>-1\<close>, outside the buffer, whatever the
  buffer held before.
\<close>

theorem strip_newline_bounds:
  "(\<forall>inp got rest b.
      length b = MAXLINE \<longrightarrow> fgets MAXLINE inp = Some (got, rest) \<longrightarrow>
      c_string (store_line b got) \<noteq> [] \<longrightarrow>
        0 \<le> strip_index (store_line b got) \<and>
        strip_index (store_line b got) < int MAXLINE \<and>
        (\<exists>b'. strip_newline (store_line b got) = Inr b' \<and>
           (c_string b' = c_string (store_line b got) \<or>
            c_string (store_line b got) = c_string b' @ [newline])))
   \<and> (fgets MAXLINE [NUL, newline] = Some ([NUL, newline], []) \<and>
      (\<forall>b. strip_index (store_line b [NUL, newline]) = - 1 \<and>
           strip_newline (store_line b [NUL, newline]) = Inl (Out_of_bounds (- 1))))"
proof (intro conjI allI impI)
  fix inp got rest b
  assume len: "length b = MAXLINE"
    and rd: "fgets MAXLINE inp = Some (got, rest)"
    and ne: "c_string (store_line b got) \<noteq> []"
  let ?b = "store_line b got"
  have got: "got = take_line (MAXLINE - 1) inp"
    using rd by (auto simp: fgets_def split: if_splits)
  have "length got \<le> MAXLINE - 1" unfolding got by (rule length_take_line)
  then have fit: "length got < length b" by (simp add: len MAXLINE_def)
  have pos: "0 < strlen ?b" using ne by (simp add: strlen_c_string)
  show "0 \<le> strip_index ?b" using pos by (simp add: strip_index_def)
  have "strlen ?b \<le> length got" by (rule strlen_store_line)
  then show "strip_index ?b < int MAXLINE"
    using fit len by (simp add: strip_index_def)
  show "\<exists>b'. strip_newline ?b = Inr b' \<and>
          (c_string b' = c_string ?b \<or> c_string ?b = c_string b' @ [newline])"
  proof (cases "last (c_string ?b) = newline")
    case True
    then have "strip_newline ?b = Inr (?b[strlen ?b - 1 := NUL])"
      by (simp add: strip_newline_nonempty [OF ne])
    moreover have "c_string ?b = butlast (c_string ?b) @ [newline]"
      using True append_butlast_last_id [OF ne] by simp
    then have "c_string ?b = c_string (?b[strlen ?b - 1 := NUL]) @ [newline]"
      by (simp only: c_string_update_last [OF pos])
    ultimately show ?thesis by blast
  next
    case False
    then have "strip_newline ?b = Inr ?b"
      by (simp add: strip_newline_nonempty [OF ne])
    then show ?thesis by blast
  qed
next
  show "fgets MAXLINE [NUL, newline] = Some ([NUL, newline], [])"
    by (simp add: fgets_def MAXLINE_def NUL_def newline_def eval_nat_numeral)
next
  fix b
  show "strip_index (store_line b [NUL, newline]) = - 1"
    by (simp add: strip_index_def strlen_def store_line_def)
next
  fix b
  show "strip_newline (store_line b [NUL, newline]) = Inl (Out_of_bounds (- 1))"
    by (simp add: strip_newline_def strip_index_def strlen_def store_line_def)
qed

theorem strip_newline_bounds_witness:
  "length (replicate MAXLINE NUL) = MAXLINE \<and>
   fgets MAXLINE [CHR ''l'', CHR ''s'', newline] = Some ([CHR ''l'', CHR ''s'', newline], []) \<and>
   c_string (store_line (replicate MAXLINE NUL) [CHR ''l'', CHR ''s'', newline]) \<noteq> [] \<and>
   0 \<le> strip_index (store_line (replicate MAXLINE NUL) [CHR ''l'', CHR ''s'', newline]) \<and>
   strip_index (store_line (replicate MAXLINE NUL) [CHR ''l'', CHR ''s'', newline]) < int MAXLINE \<and>
   (\<exists>b'. strip_newline (store_line (replicate MAXLINE NUL) [CHR ''l'', CHR ''s'', newline]) = Inr b' \<and>
      (c_string b' = c_string (store_line (replicate MAXLINE NUL) [CHR ''l'', CHR ''s'', newline]) \<or>
       c_string (store_line (replicate MAXLINE NUL) [CHR ''l'', CHR ''s'', newline]) = c_string b' @ [newline]))"
proof -
  let ?inp = "[CHR ''l'', CHR ''s'', newline]"
  have a: "length (replicate MAXLINE NUL) = MAXLINE" by simp
  have b: "fgets MAXLINE ?inp = Some (?inp, [])"
    by (simp add: fgets_def MAXLINE_def newline_def eval_nat_numeral)
  have c: "c_string (store_line (replicate MAXLINE NUL) ?inp) \<noteq> []"
    by (simp add: c_string_store_line NUL_def newline_def)
  note th = strip_newline_bounds [THEN conjunct1, rule_format, OF a b c]
  show ?thesis using a b c th by blast
qed

section \<open>Properties of the shell: the order of events\<close>

lemma watch_all_append:
  "watch_all w (es @ fs) = (case watch_all w es of None \<Rightarrow> None | Some w' \<Rightarrow> watch_all w' fs)"
  by (induction es arbitrary: w) (auto split: option.splits)

lemma linked_not_wait: "l \<noteq> At_wait \<Longrightarrow> linked l cs w = (cs = [] \<and> w = Idle)"
  by (cases l; cases cs) auto

lemma linked_wait:
  "linked At_wait cs w = (\<exists>p c. cs = [(p, c)] \<and> w = (if is_zombie (p, c) then Ended p else Alive p))"
proof (cases cs)
  case Nil
  then show ?thesis by simp
next
  case (Cons a as)
  obtain p c where a: "a = (p, c)" by (cases a)
  show ?thesis
  proof (cases as)
    case Nil
    then show ?thesis using Cons a by (cases c) auto
  next
    case (Cons b bs)
    then show ?thesis using \<open>cs = a # as\<close> a by (cases c) auto
  qed
qed

lemma shell_inv_boot: "shell_inv (boot inp junk r)"
  by (simp add: shell_inv_def boot_def)

lemma shell_inv_shell_turn:
  assumes "shell_inv s"
  shows "shell_inv (shell_turn E s)"
proof -
  obtain w where w: "watch_all Idle (events s) = Some w" and l: "linked (ploc s) (children s) w"
    using assms by (auto simp: shell_inv_def)
  show ?thesis
  proof (cases "ploc s = At_wait")
    case True
    then obtain p c where cs: "children s = [(p, c)]"
      and ww: "w = (if is_zombie (p, c) then Ended p else Alive p)"
      using l by (auto simp: linked_wait)
    show ?thesis
    proof (cases "is_zombie (p, c)")
      case z: True
      then show ?thesis using True cs ww w
        by (simp add: shell_inv_def shell_turn_def watch_all_append)
    next
      case False
      then have "shell_turn E s = s" using True cs by (simp add: shell_turn_def)
      then show ?thesis using assms by simp
    qed
  next
    case False
    then have e: "children s = []" "w = Idle" using l by (auto simp: linked_not_wait)
    show ?thesis
      using False e w
      by (cases "ploc s")
         (auto simp: shell_inv_def shell_turn_def watch_all_append split: option.splits sum.splits)
  qed
qed

lemma child_step_watch:
  assumes "\<not> is_zombie (p, c)"
  shows "watch_all (Alive p) (snd (child_step E p c))
           = Some (if is_zombie (p, fst (child_step E p c)) then Ended p else Alive p)"
  using assms
  by (induction E p c rule: child_step.induct) (auto split: option.splits image.splits)

lemma child_step_zombie:
  "is_zombie (p, c) \<Longrightarrow> child_step E p c = (c, [])"
  by (cases c) auto

lemma shell_inv_child_turn:
  assumes "shell_inv s"
  shows "shell_inv (child_turn E q s)"
proof -
  obtain w where w: "watch_all Idle (events s) = Some w" and l: "linked (ploc s) (children s) w"
    using assms by (auto simp: shell_inv_def)
  show ?thesis
  proof (cases "ploc s = At_wait")
    case True
    then obtain p c where cs: "children s = [(p, c)]"
      and ww: "w = (if is_zombie (p, c) then Ended p else Alive p)"
      using l by (auto simp: linked_wait)
    show ?thesis
    proof (cases "q = p")
      case qp: True
      show ?thesis
      proof (cases "is_zombie (p, c)")
        case z: True
        then have "child_turn E q s = s\<lparr>children := children s, events := events s @ []\<rparr>"
          using cs qp by (simp add: child_turn_def child_step_zombie)
        then show ?thesis using assms by (simp add: shell_inv_def)
      next
        case False
        then show ?thesis
          using True cs ww w qp child_step_watch [OF False, of E]
          by (simp add: shell_inv_def child_turn_def watch_all_append linked_wait)
      qed
    next
      case False
      then have "child_turn E q s = s" using cs by (simp add: child_turn_def)
      then show ?thesis using assms by simp
    qed
  next
    case False
    then have "children s = []" using l by (auto simp: linked_not_wait)
    then have "child_turn E q s = s" by (simp add: child_turn_def)
    then show ?thesis using assms by simp
  qed
qed

lemma shell_inv_run: "shell_inv s \<Longrightarrow> shell_inv (run E sch s)"
proof (induction sch arbitrary: s)
  case Nil
  then show ?case by simp
next
  case (Cons t ts)
  then show ?case by (cases t) (simp_all add: shell_inv_shell_turn shell_inv_child_turn)
qed

lemma watch_until_idle:
  "(watch_all (Alive p) ys = Some Idle \<longrightarrow> (\<exists>d. Terminated p d \<in> set ys) \<and> Reaped p \<in> set ys) \<and>
   (watch_all (Ended p) ys = Some Idle \<longrightarrow> Reaped p \<in> set ys)"
proof (induction ys)
  case Nil
  then show ?case by simp
next
  case (Cons e es)
  show ?case
  proof (cases e)
    case (Printed a fd msg)
    then show ?thesis using Cons by (cases a) auto
  next
    case (Spawned x)
    then show ?thesis by simp
  next
    case (Called_execvp x f a)
    then show ?thesis using Cons by auto
  next
    case (Terminated x d)
    then show ?thesis using Cons by auto
  next
    case (Reaped x)
    then show ?thesis using Cons by auto
  qed
qed

lemma watched_prompt:
  assumes "watch_all w (xs @ Spawned p # ys @ Printed Parent fd msg # zs) = Some w'"
  shows "(\<exists>d. Terminated p d \<in> set ys) \<and> Reaped p \<in> set ys"
proof -
  from assms obtain w1 where 1: "watch_all w xs = Some w1"
    and 2: "watch_all w1 (Spawned p # ys @ Printed Parent fd msg # zs) = Some w'"
    by (auto simp: watch_all_append split: option.splits)
  from 2 have 3: "watch_all (Alive p) (ys @ Printed Parent fd msg # zs) = Some w'"
    by (auto split: if_splits)
  then obtain w2 where 4: "watch_all (Alive p) ys = Some w2"
    and 5: "watch_all w2 (Printed Parent fd msg # zs) = Some w'"
    by (auto simp: watch_all_append split: option.splits)
  from 5 have "w2 = Idle" by (auto split: if_splits)
  with 4 show ?thesis using watch_until_idle [of p ys] by simp
qed

text \<open>
  C1. In every execution of the shell (any input, any outcome of \<^verbatim>\<open>fork\<close> and
  \<^verbatim>\<open>execvp\<close>, any interleaving of the shell and its child), whenever the shell prints
  after it has spawned a child \<open>p\<close>, the child \<open>p\<close> has terminated and \<^verbatim>\<open>wait\<close> has
  returned it between the spawn and the print: the next prompt never comes before the end
  of the child of that iteration.
\<close>

theorem prompt_after_child_terminated:
  assumes "events (run E sch (boot inp junk r)) = xs @ Spawned p # ys @ Printed Parent fd msg # zs"
  shows "(\<exists>d. Terminated p d \<in> set ys) \<and> Reaped p \<in> set ys"
proof -
  have "shell_inv (run E sch (boot inp junk r))"
    by (rule shell_inv_run [OF shell_inv_boot])
  then obtain w where "watch_all Idle (events (run E sch (boot inp junk r))) = Some w"
    by (auto simp: shell_inv_def)
  then show ?thesis using assms watched_prompt by metis
qed

section \<open>Properties of the shell: one round of the loop\<close>

lemma take_line_whole:
  "newline \<notin> set line \<Longrightarrow> length line < k \<Longrightarrow> take_line k (line @ newline # rest) = line @ [newline]"
proof (induction line arbitrary: k)
  case Nil
  then show ?case by (cases k) auto
next
  case (Cons c cs)
  then show ?case by (cases k) auto
qed

lemma fgets_line:
  assumes "newline \<notin> set line" "length line + 1 < MAXLINE"
  shows "fgets MAXLINE (line @ newline # rest) = Some (line @ [newline], rest)"
proof -
  have "take_line (MAXLINE - 1) (line @ newline # rest) = line @ [newline]"
    using assms by (intro take_line_whole) auto
  then show ?thesis by (simp add: fgets_def)
qed

lemma takeWhile_all: "NUL \<notin> set xs \<Longrightarrow> takeWhile (\<lambda>c. c \<noteq> NUL) xs = xs"
  by (induction xs) auto

lemma NUL_not_newline: "newline \<noteq> NUL"
  by (simp add: NUL_def newline_def)

lemma strip_stored_line:
  assumes "NUL \<notin> set line" "length line + 1 < length b"
  shows "strip_newline (store_line b (line @ [newline])) = Inr (stripped b line)"
proof -
  let ?b = "store_line b (line @ [newline])"
  have cs: "c_string ?b = line @ [newline]"
    using assms(1) NUL_not_newline by (simp add: c_string_store_line takeWhile_all)
  then have ne: "c_string ?b \<noteq> []" by simp
  have "strlen ?b = length line + 1" by (simp add: strlen_c_string cs)
  then show ?thesis
    using cs by (simp add: strip_newline_nonempty [OF ne] stripped_def)
qed

lemma c_string_stripped:
  assumes "NUL \<notin> set line"
  shows "c_string (stripped b line) = line"
proof -
  have "stripped b line = line @ NUL # NUL # drop (Suc (Suc (length line))) b"
    by (simp add: stripped_def store_line_def list_update_append)
  then show ?thesis
    using assms by (simp add: c_string_def takeWhile_before_NUL takeWhile_all)
qed

lemma shell_reads_line:
  assumes "ploc s = At_fgets" "stdin s = line @ newline # rest"
    and "NUL \<notin> set line" "newline \<notin> set line" "length line + 1 < MAXLINE"
    and "length (buf s) = MAXLINE"
  shows "run E [Run_shell, Run_shell] s
           = s\<lparr>ploc := At_fork, buf := stripped (buf s) line, stdin := rest\<rparr>"
proof -
  have 1: "shell_turn E s
             = s\<lparr>buf := store_line (buf s) (line @ [newline]), stdin := rest, ploc := At_strip\<rparr>"
    using assms(1,2) fgets_line [OF assms(4,5), of rest] by (simp add: shell_turn_def)
  have 2: "strip_newline (store_line (buf s) (line @ [newline])) = Inr (stripped (buf s) line)"
    using assms(3,5,6) by (intro strip_stored_line) auto
  show ?thesis by (simp add: 1) (simp add: shell_turn_def 2)
qed

lemma shell_dispatches:
  assumes "ploc t = At_fork" "children t = []" "\<not> fork_fails E (forks t)"
  shows "run E [Run_shell, Run_child (Suc (forks t))] t
           = t\<lparr>ploc := At_wait, rc := int (Suc (forks t)),
               children := [(Suc (forks t),
                  case execvp E (c_string (buf t)) [c_string (buf t)] of
                    None \<Rightarrow> At_exec_error | Some (Image ws d) \<Rightarrow> Running ws d)],
               forks := Suc (forks t),
               events := events t @ [Spawned (Suc (forks t)),
                  Called_execvp (Suc (forks t)) (c_string (buf t)) [c_string (buf t)]]\<rparr>"
  using assms by (simp add: shell_turn_def child_turn_def split: option.splits image.splits)

lemma exec_failure_reaped:
  assumes "ploc t = At_wait" "children t = [(p, At_exec_error)]"
  shows "run E [Run_child p, Run_child p, Run_shell, Run_shell] t
           = t\<lparr>ploc := At_fgets, children := [],
               events := events t @ [Printed (Child p) STDERR_FILENO (''exec error'' @ [newline]),
                  Terminated p (Exit_code 1), Reaped p, Printed Parent STDOUT_FILENO prompt]\<rparr>"
  using assms by (simp add: shell_turn_def child_turn_def)

lemma run_append: "run E (as @ bs) s = run E bs (run E as s)"
  by (induction as arbitrary: s) auto

lemma child_turn_ploc: "ploc (child_turn E q t) = ploc t"
  by (simp add: child_turn_def split: option.splits)

lemma child_turn_forks: "forks (child_turn E q t) = forks t"
  by (simp add: child_turn_def split: option.splits)

lemma exited_stays:
  "ploc t = Exited c \<Longrightarrow> ploc (run E sch t) = Exited c \<and> forks (run E sch t) = forks t"
proof (induction sch arbitrary: t)
  case Nil
  then show ?case by simp
next
  case (Cons a sch)
  show ?case
  proof (cases a)
    case Run_shell
    then have "sys_step E a t = t" using Cons.prems by (simp add: shell_turn_def)
    then show ?thesis using Cons by simp
  next
    case (Run_child q)
    then have "ploc (sys_step E a t) = Exited c" "forks (sys_step E a t) = forks t"
      using Cons.prems by (simp_all add: child_turn_ploc child_turn_forks)
    then show ?thesis using Cons.IH [of "sys_step E a t"] by simp
  qed
qed

lemma shell_inv_children:
  "shell_inv s \<Longrightarrow> ploc s \<noteq> At_wait \<Longrightarrow> children s = []"
  by (auto simp: shell_inv_def linked_not_wait)

lemma spec_first_token_plain:
  assumes "\<forall>c \<in> set line. \<not> isspace c"
  shows "spec_first_token (line @ [newline]) = line"
proof (cases line)
  case Nil
  then show ?thesis by (simp add: spec_first_token_def isspace_def newline_def)
next
  case (Cons c cs)
  then have "dropWhile isspace (line @ [newline]) = line @ [newline]"
    using assms by simp
  moreover have "takeWhile (\<lambda>c. \<not> isspace c) (line @ [newline]) = line"
    using assms by (simp add: takeWhile_append isspace_def newline_def)
  ultimately show ?thesis by (simp add: spec_first_token_def)
qed

lemma dispatch_events:
  assumes "ploc s = At_fgets" "stdin s = line @ newline # rest"
    and "NUL \<notin> set line" "newline \<notin> set line" "length line + 1 < MAXLINE"
    and "length (buf s) = MAXLINE" "children s = []" "\<not> fork_fails E (forks s)"
  shows "events (run E [Run_shell, Run_shell, Run_shell, Run_child (Suc (forks s))] s)
           = events s @ [Spawned (Suc (forks s)), Called_execvp (Suc (forks s)) line [line]]"
proof -
  let ?t = "s\<lparr>ploc := At_fork, buf := stripped (buf s) line, stdin := rest\<rparr>"
  have rd: "run E [Run_shell, Run_shell] s = ?t"
    using assms(1-6) by (rule shell_reads_line)
  have "run E ([Run_shell, Run_shell] @ [Run_shell, Run_child (Suc (forks s))]) s
          = run E [Run_shell, Run_child (Suc (forks ?t))] ?t"
    unfolding run_append rd by simp
  also have "events \<dots> = events s @ [Spawned (Suc (forks s)),
      Called_execvp (Suc (forks s)) line [line]]"
    using assms(7,8) by (subst shell_dispatches) (simp_all add: c_string_stripped [OF assms(3)])
  finally have "events (run E [Run_shell, Run_shell, Run_shell, Run_child (Suc (forks s))] s)
      = events s @ [Spawned (Suc (forks s)), Called_execvp (Suc (forks s)) line [line]]"
    by simp
  then show ?thesis .
qed

lemma length_fgets:
  assumes "fgets MAXLINE inp = Some (got, rest)"
  shows "length got < MAXLINE"
proof -
  have "got = take_line (MAXLINE - 1) inp"
    using assms by (auto simp: fgets_def split: if_splits)
  then have "length got \<le> MAXLINE - 1" by (simp add: length_take_line)
  then show ?thesis by (simp add: MAXLINE_def)
qed

lemma shell_reads:
  assumes "ploc s = At_fgets" "fgets MAXLINE (stdin s) = Some (got, rest)"
    and "length (buf s) = MAXLINE" "takeWhile (\<lambda>c. c \<noteq> NUL) got \<noteq> []"
  shows "\<exists>b. run E [Run_shell, Run_shell] s = s\<lparr>ploc := At_fork, buf := b, stdin := rest\<rparr> \<and>
             c_string b = read_command got \<and> length b = MAXLINE"
proof -
  let ?b = "store_line (buf s) got"
  have cs: "c_string ?b = takeWhile (\<lambda>c. c \<noteq> NUL) got" by (rule c_string_store_line)
  then have ne: "c_string ?b \<noteq> []" using assms(4) by simp
  then have pos: "0 < strlen ?b" by (simp add: strlen_c_string)
  have len: "length ?b = MAXLINE"
    using length_fgets [OF assms(2)] assms(3) by (simp add: length_store_line)
  let ?b' = "if last (c_string ?b) = newline then ?b[strlen ?b - 1 := NUL] else ?b"
  have 1: "shell_turn E s = s\<lparr>buf := ?b, stdin := rest, ploc := At_strip\<rparr>"
    using assms(1,2) by (simp add: shell_turn_def)
  have 2: "strip_newline ?b = Inr ?b'" by (rule strip_newline_nonempty [OF ne])
  have run: "run E [Run_shell, Run_shell] s = s\<lparr>ploc := At_fork, buf := ?b', stdin := rest\<rparr>"
    by (simp add: 1) (simp add: shell_turn_def 2)
  have "c_string ?b' = chomp (c_string ?b)"
    using ne c_string_update_last [OF pos] by (simp add: chomp_def)
  then have "c_string ?b' = read_command got" by (simp add: read_command_def cs)
  moreover have "length ?b' = MAXLINE" using len by simp
  ultimately show ?thesis using run by blast
qed

lemma read_command_line:
  assumes "NUL \<notin> set line" "newline \<noteq> NUL"
  shows "read_command (line @ [newline]) = line"
proof -
  have "takeWhile (\<lambda>c. c \<noteq> NUL) (line @ [newline]) = line @ [newline]"
    using assms by (intro takeWhile_all) auto
  then show ?thesis by (simp add: read_command_def chomp_def)
qed

lemma dispatch_events_at_fork:
  assumes "ploc t = At_fork" "children t = []" "\<not> fork_fails E (forks t)"
  shows "events (run E [Run_shell, Run_child (Suc (forks t))] t)
           = events t @ [Spawned (Suc (forks t)),
               Called_execvp (Suc (forks t)) (c_string (buf t)) [c_string (buf t)]]"
  using assms by (subst shell_dispatches) simp_all

text \<open>
  C2, as the code has it. For every line \<^verbatim>\<open>fgets\<close> returns with a string that is not
  empty, the child calls \<^verbatim>\<open>execvp\<close> with the whole string read (the bytes before the
  first NUL, less a final newline) as the file to search and as \<^verbatim>\<open>argv[0]\<close>, and with
  no further argument; nothing of the line is parsed. For a line with its newline and
  without a NUL byte this string is the line, and when the line holds no whitespace it is
  the first whitespace-free token of the line.
\<close>

theorem exec_takes_whole_line:
  assumes "ploc s = At_fgets" "fgets MAXLINE (stdin s) = Some (got, rest)"
    and "length (buf s) = MAXLINE" "takeWhile (\<lambda>c. c \<noteq> NUL) got \<noteq> []"
    and "children s = []" "\<not> fork_fails E (forks s)"
  shows "events (run E [Run_shell, Run_shell, Run_shell, Run_child (Suc (forks s))] s)
           = events s @ [Spawned (Suc (forks s)),
               Called_execvp (Suc (forks s)) (read_command got) [read_command got]]
         \<and> (\<forall>line. got = line @ [newline] \<longrightarrow> NUL \<notin> set line \<longrightarrow>
               read_command got = line \<and>
               ((\<forall>c \<in> set line. \<not> isspace c) \<longrightarrow> spec_first_token got = line))"
proof -
  obtain b where rd: "run E [Run_shell, Run_shell] s = s\<lparr>ploc := At_fork, buf := b, stdin := rest\<rparr>"
    and cs: "c_string b = read_command got"
    using shell_reads [OF assms(1-4)] by blast
  let ?t = "s\<lparr>ploc := At_fork, buf := b, stdin := rest\<rparr>"
  have "run E ([Run_shell, Run_shell] @ [Run_shell, Run_child (Suc (forks s))]) s
          = run E [Run_shell, Run_child (Suc (forks ?t))] ?t"
    unfolding run_append rd by simp
  also have "events \<dots> = events s @ [Spawned (Suc (forks s)),
      Called_execvp (Suc (forks s)) (read_command got) [read_command got]]"
    using assms(5,6) by (subst dispatch_events_at_fork) (simp_all add: cs)
  finally have ev: "events (run E [Run_shell, Run_shell, Run_shell, Run_child (Suc (forks s))] s)
      = events s @ [Spawned (Suc (forks s)),
          Called_execvp (Suc (forks s)) (read_command got) [read_command got]]"
    by simp
  have "read_command got = line \<and> ((\<forall>c \<in> set line. \<not> isspace c) \<longrightarrow> spec_first_token got = line)"
    if "got = line @ [newline]" "NUL \<notin> set line" for line
    using that read_command_line [OF that(2) NUL_not_newline] spec_first_token_plain [of line]
    by simp
  then show ?thesis using ev by blast
qed

lemma failed_round_at_fork:
  assumes "ploc t = At_fork" "children t = []" "\<not> fork_fails E (forks t)"
    and "execvp E (c_string (buf t)) [c_string (buf t)] = None"
  shows "run E [Run_shell, Run_child (Suc (forks t)), Run_child (Suc (forks t)),
                Run_child (Suc (forks t)), Run_shell, Run_shell] t
           = t\<lparr>ploc := At_fgets, rc := int (Suc (forks t)), children := [],
               forks := Suc (forks t),
               events := events t @ [Spawned (Suc (forks t)),
                 Called_execvp (Suc (forks t)) (c_string (buf t)) [c_string (buf t)],
                 Printed (Child (Suc (forks t))) STDERR_FILENO (''exec error'' @ [newline]),
                 Terminated (Suc (forks t)) (Exit_code 1),
                 Reaped (Suc (forks t)),
                 Printed Parent STDOUT_FILENO prompt]\<rparr>"
proof -
  let ?p = "Suc (forks t)"
  let ?u = "t\<lparr>ploc := At_wait, rc := int ?p, children := [(?p, At_exec_error)],
              forks := ?p,
              events := events t @ [Spawned ?p,
                Called_execvp ?p (c_string (buf t)) [c_string (buf t)]]\<rparr>"
  have u: "run E [Run_shell, Run_child ?p] t = ?u"
    using assms by (subst shell_dispatches) simp_all
  have "run E ([Run_shell, Run_child ?p] @ [Run_child ?p, Run_child ?p, Run_shell, Run_shell]) t
        = run E [Run_child ?p, Run_child ?p, Run_shell, Run_shell] ?u"
    unfolding run_append u by (rule refl)
  also have "\<dots> = ?u\<lparr>ploc := At_fgets, children := [],
       events := events ?u @ [Printed (Child ?p) STDERR_FILENO (''exec error'' @ [newline]),
          Terminated ?p (Exit_code 1), Reaped ?p, Printed Parent STDOUT_FILENO prompt]\<rparr>"
    by (rule exec_failure_reaped) simp_all
  finally show ?thesis by simp
qed



text \<open>
  C3. When \<^verbatim>\<open>fork\<close> fails in the command loop, the shell prints \<^verbatim>\<open>Fork error\<close> on
  standard error and exits with code 1; no child exists, and whatever is scheduled
  afterwards the shell stays exited and \<^verbatim>\<open>fork\<close> is not called again.
\<close>

theorem fork_failure_exits_1:
  assumes "s = run E sch0 (boot inp junk r)" "ploc s = At_fork" "fork_fails E (forks s)"
  shows "run E [Run_shell, Run_shell, Run_shell] s
           = s\<lparr>ploc := Exited 1, rc := - 1, forks := Suc (forks s),
               events := events s @ [Printed Parent STDERR_FILENO (''Fork error'' @ [newline])]\<rparr>
         \<and> children s = []
         \<and> (\<forall>sch. ploc (run E (sch0 @ [Run_shell, Run_shell, Run_shell] @ sch) (boot inp junk r))
                     = Exited 1
                \<and> forks (run E (sch0 @ [Run_shell, Run_shell, Run_shell] @ sch) (boot inp junk r))
                     = Suc (forks s)
                \<and> children (run E (sch0 @ [Run_shell, Run_shell, Run_shell] @ sch) (boot inp junk r))
                     = [])"
proof -
  let ?s' = "s\<lparr>ploc := Exited 1, rc := - 1, forks := Suc (forks s),
               events := events s @ [Printed Parent STDERR_FILENO (''Fork error'' @ [newline])]\<rparr>"
  have three: "run E [Run_shell, Run_shell, Run_shell] s = ?s'"
    using assms(2,3) by (simp add: shell_turn_def)
  have inv: "shell_inv s" unfolding assms(1) by (rule shell_inv_run [OF shell_inv_boot])
  have none: "children s = []" using inv assms(2) by (simp add: shell_inv_children)
  have after: "ploc (run E (sch0 @ [Run_shell, Run_shell, Run_shell] @ sch) (boot inp junk r))
                 = Exited 1
      \<and> forks (run E (sch0 @ [Run_shell, Run_shell, Run_shell] @ sch) (boot inp junk r))
                 = Suc (forks s)
      \<and> children (run E (sch0 @ [Run_shell, Run_shell, Run_shell] @ sch) (boot inp junk r)) = []"
    for sch
  proof -
    let ?e = "run E (sch0 @ [Run_shell, Run_shell, Run_shell] @ sch) (boot inp junk r)"
    have e: "?e = run E sch ?s'"
      unfolding run_append assms(1) [symmetric] three by (rule refl)
    have 1: "ploc ?e = Exited 1 \<and> forks ?e = forks ?s'"
      unfolding e by (rule exited_stays) simp
    have "shell_inv ?e" by (rule shell_inv_run [OF shell_inv_boot])
    then have "children ?e = []" using 1 by (simp add: shell_inv_children)
    then show ?thesis using 1 by simp
  qed
  show ?thesis using three none after by blast
qed

text \<open>
  C5. When \<^verbatim>\<open>fgets\<close> finds the input at its end and returns NULL, the loop is left and
  the shell exits with code 0, and stays so whatever is scheduled afterwards; on an empty
  input this happens right after the first prompt, with no command issued.
\<close>

theorem end_of_input_exits_0:
  assumes "ploc s = At_fgets" "fgets MAXLINE (stdin s) = None"
  shows "run E [Run_shell, Run_shell] s = s\<lparr>ploc := Exited 0\<rparr>
    \<and> (\<forall>sch. ploc (run E ([Run_shell, Run_shell] @ sch) s) = Exited 0)
    \<and> run E [Run_shell, Run_shell, Run_shell] (boot [] junk r)
        = (boot [] junk r)\<lparr>ploc := Exited 0, events := [Printed Parent STDOUT_FILENO prompt]\<rparr>"
proof -
  have two: "run E [Run_shell, Run_shell] s = s\<lparr>ploc := Exited 0\<rparr>"
    using assms by (simp add: shell_turn_def)
  have "ploc (run E ([Run_shell, Run_shell] @ sch) s) = Exited 0" for sch
    unfolding run_append two using exited_stays [of "s\<lparr>ploc := Exited 0\<rparr>" 0 E sch] by simp
  moreover have "run E [Run_shell, Run_shell, Run_shell] (boot [] junk r)
        = (boot [] junk r)\<lparr>ploc := Exited 0, events := [Printed Parent STDOUT_FILENO prompt]\<rparr>"
    by (simp add: shell_turn_def fgets_def boot_def)
  ultimately show ?thesis using two by blast
qed

section \<open>Properties of the shell: concrete runs\<close>

lemma first_turn: "shell_turn E (boot inp blank 0) = prompted inp"
  by (simp add: prompted_def shell_turn_def boot_def)

lemma prompted_fields:
  "ploc (prompted inp) = At_fgets" "stdin (prompted inp) = inp" "buf (prompted inp) = blank"
  "children (prompted inp) = []" "forks (prompted inp) = 0"
  "events (prompted inp) = [Printed Parent STDOUT_FILENO prompt]"
  by (simp_all add: prompted_def boot_def)

lemma length_blank: "length blank = MAXLINE"
  by (simp add: blank_def)

lemma env0_fields: "\<not> fork_fails env0 n" "loader env0 f a = None" "execvp env0 f a = None"
  by (simp_all add: env0_def execvp_def)


lemma at_fork_empty_fields:
  "ploc at_fork_empty = At_fork" "children at_fork_empty = []" "forks at_fork_empty = 0"
  "c_string (buf at_fork_empty) = []"
  "events at_fork_empty = [Printed Parent STDOUT_FILENO prompt]"
  by (simp_all add: at_fork_empty_def prompted_fields c_string_stripped)

lemma at_fork_empty_reached:
  "run E [Run_shell, Run_shell, Run_shell] (boot [newline] blank 0) = at_fork_empty"
proof -
  have "run E [Run_shell, Run_shell] (prompted [newline]) = at_fork_empty"
    unfolding at_fork_empty_def
    using shell_reads_line [of "prompted [newline]" "[]" "[]" E]
    by (simp add: prompted_fields length_blank MAXLINE_def)
  then show ?thesis by (simp add: first_turn)
qed

lemma demo_round:
  "events (run env0 [Run_shell, Run_shell, Run_shell, Run_shell, Run_child 1, Run_child 1,
                     Run_child 1, Run_shell, Run_shell] (boot [newline] blank 0))
     = [Printed Parent STDOUT_FILENO prompt, Spawned 1, Called_execvp 1 [] [[]],
        Printed (Child 1) STDERR_FILENO (''exec error'' @ [newline]),
        Terminated 1 (Exit_code 1), Reaped 1, Printed Parent STDOUT_FILENO prompt]"
proof -
  have "run env0 ([Run_shell, Run_shell, Run_shell] @ [Run_shell, Run_child 1, Run_child 1,
                     Run_child 1, Run_shell, Run_shell]) (boot [newline] blank 0)
          = run env0 [Run_shell, Run_child 1, Run_child 1, Run_child 1, Run_shell, Run_shell]
              at_fork_empty"
    unfolding run_append at_fork_empty_reached by (rule refl)
  then show ?thesis
    using failed_round_at_fork [of at_fork_empty env0]
    by (simp add: at_fork_empty_fields env0_fields)
qed

theorem prompt_after_child_terminated_witness:
  "events (run env0 [Run_shell, Run_shell, Run_shell, Run_shell, Run_child 1, Run_child 1,
                     Run_child 1, Run_shell, Run_shell] (boot [newline] blank 0))
     = [Printed Parent STDOUT_FILENO prompt] @ Spawned 1 #
        [Called_execvp 1 [] [[]], Printed (Child 1) STDERR_FILENO (''exec error'' @ [newline]),
         Terminated 1 (Exit_code 1), Reaped 1] @ Printed Parent STDOUT_FILENO prompt # []
   \<and> (\<exists>d. Terminated 1 d \<in> set [Called_execvp 1 [] [[]],
              Printed (Child 1) STDERR_FILENO (''exec error'' @ [newline]),
              Terminated 1 (Exit_code 1), Reaped 1])
   \<and> Reaped 1 \<in> set [Called_execvp 1 [] [[]],
              Printed (Child 1) STDERR_FILENO (''exec error'' @ [newline]),
              Terminated 1 (Exit_code 1), Reaped 1]"
proof -
  have ev: "events (run env0 [Run_shell, Run_shell, Run_shell, Run_shell, Run_child 1,
                     Run_child 1, Run_child 1, Run_shell, Run_shell] (boot [newline] blank 0))
     = [Printed Parent STDOUT_FILENO prompt] @ Spawned 1 #
        [Called_execvp 1 [] [[]], Printed (Child 1) STDERR_FILENO (''exec error'' @ [newline]),
         Terminated 1 (Exit_code 1), Reaped 1] @ Printed Parent STDOUT_FILENO prompt # []"
    using demo_round by simp
  from prompt_after_child_terminated [OF ev] ev show ?thesis by blast
qed


lemma env_no_fork_fields: "fork_fails env_no_fork n" "loader env_no_fork f a = None"
  by (simp_all add: env_no_fork_def)

lemma ls_l_token: "spec_first_token (''ls -l'' @ [newline]) = ''ls''"
  by (simp add: spec_first_token_def isspace_def newline_def)

lemma ls_l_plain: "NUL \<notin> set ''ls -l''" "newline \<notin> set ''ls -l''"
  by (simp_all add: NUL_def newline_def)

lemma ls_l_events:
  "events (run env0 [Run_shell, Run_shell, Run_shell, Run_shell, Run_child 1]
             (boot (''ls -l'' @ [newline]) blank 0))
     = [Printed Parent STDOUT_FILENO prompt, Spawned 1, Called_execvp 1 ''ls -l'' [''ls -l'']]"
  using dispatch_events [of "prompted (''ls -l'' @ [newline])" "''ls -l''" "[]" env0] ls_l_plain
  by (simp add: first_turn prompted_fields length_blank env0_fields MAXLINE_def)

text \<open>
  C2 as stated fails on the line \<^verbatim>\<open>ls -l\<close>: its first whitespace-free token is
  \<^verbatim>\<open>ls\<close>, and the child calls \<^verbatim>\<open>execvp\<close> for the program \<^verbatim>\<open>ls -l\<close>.
\<close>

theorem exec_first_token_counterexample:
  "events (run env0 [Run_shell, Run_shell, Run_shell, Run_shell, Run_child 1]
             (boot (''ls -l'' @ [newline]) blank 0))
     \<noteq> [Printed Parent STDOUT_FILENO prompt, Spawned 1,
         Called_execvp 1 (spec_first_token (''ls -l'' @ [newline]))
           [spec_first_token (''ls -l'' @ [newline])]]
   \<and> events (run env0 [Run_shell, Run_shell, Run_shell, Run_shell, Run_child 1]
             (boot (''ls -l'' @ [newline]) blank 0))
     = [Printed Parent STDOUT_FILENO prompt, Spawned 1, Called_execvp 1 ''ls -l'' [''ls -l'']]
   \<and> spec_first_token (''ls -l'' @ [newline]) = ''ls''"
  unfolding ls_l_events ls_l_token by simp

theorem exec_takes_whole_line_witness:
  "ploc (prompted (''ls'' @ [newline])) = At_fgets \<and>
   fgets MAXLINE (stdin (prompted (''ls'' @ [newline]))) = Some (''ls'' @ [newline], []) \<and>
   length (buf (prompted (''ls'' @ [newline]))) = MAXLINE \<and>
   takeWhile (\<lambda>c. c \<noteq> NUL) (''ls'' @ [newline]) \<noteq> [] \<and>
   children (prompted (''ls'' @ [newline])) = [] \<and>
   \<not> fork_fails env0 (forks (prompted (''ls'' @ [newline]))) \<and>
   NUL \<notin> set ''ls'' \<and> \<not> isspace (CHR ''l'') \<and> \<not> isspace (CHR ''s'') \<and>
   events (run env0 [Run_shell, Run_shell, Run_shell, Run_child 1] (prompted (''ls'' @ [newline])))
     = [Printed Parent STDOUT_FILENO prompt, Spawned 1, Called_execvp 1 ''ls'' [''ls'']] \<and>
   read_command (''ls'' @ [newline]) = ''ls'' \<and>
   spec_first_token (''ls'' @ [newline]) = ''ls''"
proof -
  have plain: "NUL \<notin> set ''ls''" "\<forall>c \<in> set ''ls''. \<not> isspace c"
    "\<not> isspace (CHR ''l'')" "\<not> isspace (CHR ''s'')"
    by (simp_all add: NUL_def isspace_def)
  have 1: "ploc (prompted (''ls'' @ [newline])) = At_fgets" by (rule prompted_fields)
  have 2: "fgets MAXLINE (stdin (prompted (''ls'' @ [newline]))) = Some (''ls'' @ [newline], [])"
    using fgets_line [of "''ls''" "[]"] by (simp add: prompted_fields MAXLINE_def newline_def)
  have 3: "length (buf (prompted (''ls'' @ [newline]))) = MAXLINE"
    by (simp add: prompted_fields length_blank)
  have 4: "takeWhile (\<lambda>c. c \<noteq> NUL) (''ls'' @ [newline]) \<noteq> []" by (simp add: NUL_def)
  have 5: "children (prompted (''ls'' @ [newline])) = []" by (rule prompted_fields)
  have 6: "\<not> fork_fails env0 (forks (prompted (''ls'' @ [newline])))" by (rule env0_fields)
  note th = exec_takes_whole_line [OF 1 2 3 4 5 6]
  from th plain(1,2) have 7: "read_command (''ls'' @ [newline]) = ''ls''"
    and 8: "spec_first_token (''ls'' @ [newline]) = ''ls''"
    by blast+
  from th have "events (run env0 [Run_shell, Run_shell, Run_shell,
        Run_child (Suc (forks (prompted (''ls'' @ [newline]))))] (prompted (''ls'' @ [newline])))
     = events (prompted (''ls'' @ [newline])) @ [Spawned (Suc (forks (prompted (''ls'' @ [newline])))),
         Called_execvp (Suc (forks (prompted (''ls'' @ [newline]))))
           (read_command (''ls'' @ [newline])) [read_command (''ls'' @ [newline])]]"
    by (rule conjunct1)
  then have 9: "events (run env0 [Run_shell, Run_shell, Run_shell, Run_child 1]
        (prompted (''ls'' @ [newline])))
     = [Printed Parent STDOUT_FILENO prompt, Spawned 1, Called_execvp 1 ''ls'' [''ls'']]"
    unfolding 7 by (simp add: prompted_fields)
  show ?thesis using 1 2 3 4 5 6 7 8 9 plain by blast
qed

theorem fork_failure_exits_1_witness:
  "ploc (run env_no_fork [Run_shell, Run_shell, Run_shell] (boot [newline] blank 0)) = At_fork \<and>
   fork_fails env_no_fork
     (forks (run env_no_fork [Run_shell, Run_shell, Run_shell] (boot [newline] blank 0))) \<and>
   ploc (run env_no_fork [Run_shell, Run_shell, Run_shell]
          (run env_no_fork [Run_shell, Run_shell, Run_shell] (boot [newline] blank 0)))
     = Exited 1 \<and>
   events (run env_no_fork [Run_shell, Run_shell, Run_shell]
          (run env_no_fork [Run_shell, Run_shell, Run_shell] (boot [newline] blank 0)))
     = [Printed Parent STDOUT_FILENO prompt,
        Printed Parent STDERR_FILENO (''Fork error'' @ [newline])] \<and>
   children (run env_no_fork [Run_shell, Run_shell, Run_shell] (boot [newline] blank 0)) = []"
proof -
  let ?s = "run env_no_fork [Run_shell, Run_shell, Run_shell] (boot [newline] blank 0)"
  have "run env_no_fork [Run_shell, Run_shell] (prompted [newline])
          = (prompted [newline])\<lparr>ploc := At_fork, buf := stripped blank [], stdin := []\<rparr>"
    using shell_reads_line [of "prompted [newline]" "[]" "[]" env_no_fork]
    by (simp add: prompted_fields length_blank MAXLINE_def)
  then have s: "?s = (prompted [newline])\<lparr>ploc := At_fork, buf := stripped blank [], stdin := []\<rparr>"
    by (simp add: first_turn)
  have a: "ploc ?s = At_fork" unfolding s by simp
  have b: "fork_fails env_no_fork (forks ?s)" by (rule env_no_fork_fields)
  note th = fork_failure_exits_1 [OF refl a b]
  have c: "run env_no_fork [Run_shell, Run_shell, Run_shell] ?s =
      ?s\<lparr>ploc := Exited 1, rc := - 1, forks := Suc (forks ?s),
          events := events ?s @ [Printed Parent STDERR_FILENO (''Fork error'' @ [newline])]\<rparr>"
    using th by (rule conjunct1)
  have d: "children ?s = []" using th by blast
  have e: "events ?s = [Printed Parent STDOUT_FILENO prompt]" unfolding s by (simp add: prompted_fields)
  show ?thesis unfolding c using a b d e by simp
qed

theorem end_of_input_exits_0_witness:
  "ploc (prompted []) = At_fgets \<and> fgets MAXLINE (stdin (prompted [])) = None \<and>
   run env0 [Run_shell, Run_shell] (prompted []) = (prompted [])\<lparr>ploc := Exited 0\<rparr>"
  using end_of_input_exits_0 [of "prompted []" env0] by (simp add: prompted_fields fgets_def)

section \<open>Properties of the redirecting program\<close>

lemma snd_sys_close: "snd (sys_close fd t) = t[fd := None]"
proof (cases "fd < length t")
  case True
  then show ?thesis by (auto simp: sys_close_def) (metis list_update_id)
next
  case False
  then show ?thesis by (simp add: sys_close_def list_update_beyond)
qed

lemma first_free_closed:
  "i < length t \<Longrightarrow> \<forall>j < i. t ! j \<noteq> None \<Longrightarrow> first_free k (t[i := None]) = Some (k + i)"
proof (induction t arbitrary: i k)
  case Nil
  then show ?case by simp
next
  case (Cons a t)
  show ?case
  proof (cases i)
    case 0
    then show ?thesis by simp
  next
    case (Suc n)
    have a: "a \<noteq> None" using Cons.prems(2) [rule_format, of 0] Suc by simp
    have "\<forall>j < n. t ! j \<noteq> None"
    proof (intro allI impI)
      fix j assume "j < n"
      then show "t ! j \<noteq> None" using Cons.prems(2) [rule_format, of "Suc j"] Suc by simp
    qed
    moreover have "n < length t" using Cons.prems(1) Suc by simp
    ultimately have "first_free (Suc k) (t[n := None]) = Some (Suc k + n)"
      using Cons.IH [of n "Suc k"] by blast
    then show ?thesis using a Suc by auto
  qed
qed

lemma lowest_free_stdout:
  assumes "STDOUT_FILENO < length t" "t ! STDIN_FILENO \<noteq> None"
  shows "lowest_free (snd (sys_close STDOUT_FILENO t)) = Some STDOUT_FILENO"
proof -
  have "\<forall>j < STDOUT_FILENO. t ! j \<noteq> None"
    using assms(2) by (simp add: STDOUT_FILENO_def STDIN_FILENO_def)
  then show ?thesis
    using first_free_closed [OF assms(1), of 0] by (simp add: lowest_free_def snd_sys_close)
qed

lemma sys_open_success:
  assumes "sys_open K um junk path flags mode fs t = (Inr fd, fs', t')"
  shows "lowest_free t = Some fd \<and>
         (\<exists>acc f. access_of K flags = Some acc \<and> t' = t[fd := Some (File_at path acc 0)] \<and>
                  fs' path = Some f \<and>
                  (fs path = None \<or> has_flag flags (O_TRUNC K) \<and> acc \<noteq> Read_only
                     \<longrightarrow> bytes f = []))"
  using assms
  by (auto simp: sys_open_def split: option.splits if_splits)

lemma sys_open_failure:
  "sys_open K um junk path flags mode fs t = (Inl e, fs', t') \<Longrightarrow> fs' = fs \<and> t' = t"
  by (auto simp: sys_open_def split: option.splits if_splits)

lemma redirect_stdout_cases:
  obtains r fs2 t2 where
    "sys_open K (mask H) (stray H) ''wc_output.txt'' (open_flags K) None (disk m)
       (snd (sys_close STDOUT_FILENO (table m))) = (r, fs2, t2)"
    "redirect_stdout K H m = (r, m\<lparr>table := t2, disk := fs2\<rparr>)"
proof -
  obtain r fs2 t2 where o: "sys_open K (mask H) (stray H) ''wc_output.txt'' (open_flags K) None
      (disk m) (snd (sys_close STDOUT_FILENO (table m))) = (r, fs2, t2)"
    by (metis prod_cases3)
  then have "redirect_stdout K H m = (r, m\<lparr>table := t2, disk := fs2\<rparr>)"
    by (simp add: redirect_stdout_def)
  with o show ?thesis by (rule that)
qed

lemma redirect_stdout_success:
  assumes "STDOUT_FILENO < length (table m)" "table m ! STDIN_FILENO \<noteq> None"
    and "redirect_stdout K H m = (Inr fd, m')"
  shows "fd = STDOUT_FILENO \<and> trace m' = trace m \<and> length (table m') = length (table m) \<and>
         (\<exists>acc f. access_of K (open_flags K) = Some acc \<and>
            table m' ! STDOUT_FILENO = Some (File_at ''wc_output.txt'' acc 0) \<and>
            disk m' ''wc_output.txt'' = Some f \<and>
            (disk m ''wc_output.txt'' = None \<or>
               has_flag (open_flags K) (O_TRUNC K) \<and> acc \<noteq> Read_only \<longrightarrow> bytes f = []))"
proof -
  obtain r fs2 t2 where o: "sys_open K (mask H) (stray H) ''wc_output.txt'' (open_flags K) None
      (disk m) (snd (sys_close STDOUT_FILENO (table m))) = (r, fs2, t2)"
    and rs: "redirect_stdout K H m = (r, m\<lparr>table := t2, disk := fs2\<rparr>)"
    by (rule redirect_stdout_cases)
  from rs assms(3) have r: "r = Inr fd" and m': "m' = m\<lparr>table := t2, disk := fs2\<rparr>" by simp_all
  note s = sys_open_success [OF o [unfolded r]]
  have fd: "fd = STDOUT_FILENO"
    using s lowest_free_stdout [OF assms(1,2)] by simp
  show ?thesis
    using s assms(1) unfolding m' fd by (auto simp: snd_sys_close)
qed

lemma put_at_inside:
  "pos \<le> length old \<Longrightarrow> put_at pos a old = take pos old @ a @ drop (pos + length a) old"
  by (simp add: put_at_def)

lemma put_at_append:
  assumes "pos \<le> length old"
  shows "put_at (pos + length a) c (put_at pos a old) = put_at pos (a @ c) old"
proof -
  let ?new = "take pos old @ a @ drop (pos + length a) old"
  have new: "put_at pos a old = ?new" using assms by (rule put_at_inside)
  have len: "pos + length a \<le> length ?new" using assms by simp
  have "put_at (pos + length a) c ?new
          = take (pos + length a) ?new @ c @ drop (pos + length a + length c) ?new"
    using len by (rule put_at_inside)
  also have "take (pos + length a) ?new = take pos old @ a" using assms by simp
  also have "drop (pos + length a + length c) ?new = drop (pos + length (a @ c)) old"
    using assms by (simp add: add.commute add.left_commute)
  finally show ?thesis using assms by (simp add: new put_at_inside)
qed

lemma length_put_at: "pos \<le> length old \<Longrightarrow> pos + length a \<le> length (put_at pos a old)"
  by (simp add: put_at_inside)

lemma sys_write_file:
  assumes "fd < length (table m)" "table m ! fd = Some (File_at path acc pos)"
    and "acc \<noteq> Read_only" "disk m path = Some f"
  shows "sys_write w fd msg m
           = m\<lparr>table := (table m)[fd := Some (File_at path acc (pos + length msg))],
               disk := (disk m)(path \<mapsto> f\<lparr>bytes := put_at pos msg (bytes f)\<rparr>)\<rparr>"
  using assms by (simp add: sys_write_def)

lemma write_all_to_file:
  assumes "fd < length (table m)" "table m ! fd = Some (File_at path acc pos)"
    and "acc \<noteq> Read_only" "disk m path = Some f" "pos \<le> length (bytes f)"
  shows "write_all w (map (Pair fd) outs) m
           = m\<lparr>table := (table m)[fd := Some (File_at path acc (pos + length (concat outs)))],
               disk := (disk m)(path \<mapsto> f\<lparr>bytes := put_at pos (concat outs) (bytes f)\<rparr>)\<rparr>"
  using assms
proof (induction outs arbitrary: m pos f)
  case Nil
  have "(table m)[fd := Some (File_at path acc pos)] = table m"
    using Nil.prems(2) by (metis list_update_id)
  moreover have "(disk m)(path \<mapsto> f) = disk m"
    using Nil.prems(4) by (simp add: map_upd_triv)
  ultimately show ?case using Nil.prems(5) by (simp add: put_at_inside)
next
  case (Cons a outs)
  let ?f = "f\<lparr>bytes := put_at pos a (bytes f)\<rparr>"
  let ?m = "m\<lparr>table := (table m)[fd := Some (File_at path acc (pos + length a))],
               disk := (disk m)(path \<mapsto> ?f)\<rparr>"
  have step: "sys_write w fd a m = ?m"
    using Cons.prems(1-4) by (rule sys_write_file)
  have "write_all w (map (Pair fd) outs) ?m
          = ?m\<lparr>table := (table ?m)[fd := Some (File_at path acc
                     (pos + length a + length (concat outs)))],
                disk := (disk ?m)(path \<mapsto>
                     ?f\<lparr>bytes := put_at (pos + length a) (concat outs) (bytes ?f)\<rparr>)\<rparr>"
    using Cons.prems(1,3) length_put_at [OF Cons.prems(5), of a]
    by (intro Cons.IH) simp_all
  then show ?case
    using put_at_append [OF Cons.prems(5), of a "concat outs"]
    by (simp add: step add.assoc fun_upd_def fun_eq_iff)
qed

lemma trace_sys_write: "\<exists>rest. trace (sys_write w fd msg m) = trace m @ rest"
  by (auto simp: sys_write_def split: option.splits chan.splits)

lemma trace_write_all: "\<exists>rest. trace (write_all w ws m) = trace m @ rest"
proof (induction ws arbitrary: m)
  case Nil
  then show ?case by simp
next
  case (Cons a ws)
  obtain fd msg where a: "a = (fd, msg)" by (cases a)
  obtain r1 where 1: "trace (sys_write w fd msg m) = trace m @ r1"
    using trace_sys_write by blast
  obtain r2 where 2: "trace (write_all w ws (sys_write w fd msg m))
      = trace (sys_write w fd msg m) @ r2"
    using Cons.IH by blast
  show ?case using 1 2 a by simp
qed

lemma execvp_wc: "execvp H ''wc'' wc_argv = loader H ''wc'' wc_argv"
  by (simp add: execvp_def)

lemma redirect_child_fields:
  assumes "redirect_stdout K H m = (r, m1)"
  shows "opened (redirect_child K H p m) = r"
    and "at_exec (redirect_child K H p m) = m1\<lparr>trace := trace m1 @ [Called_execvp p ''wc'' wc_argv]\<rparr>"
    and "finish (redirect_child K H p m) =
           (case execvp H ''wc'' wc_argv of
              Some (Image ws d) \<Rightarrow> write_all (Child p) ws (at_exec (redirect_child K H p m))
            | None \<Rightarrow> sys_write (Child p) STDERR_FILENO (''exec failed'' @ [newline])
                        (at_exec (redirect_child K H p m)))"
    and "ended (redirect_child K H p m) =
           (case execvp H ''wc'' wc_argv of Some (Image ws d) \<Rightarrow> d | None \<Rightarrow> Exit_code 1)"
  using assms
  by (simp_all add: redirect_child_def Let_def split: option.splits image.splits)

lemma sys_write_terminal:
  "fd < length (table m) \<Longrightarrow> table m ! fd = Some Terminal \<Longrightarrow>
   sys_write w fd msg m = m\<lparr>trace := trace m @ [Printed w fd msg]\<rparr>"
  by (simp add: sys_write_def)

lemma fresh_machine_fields:
  "table (fresh_machine fs) = standard_fds 5" "disk (fresh_machine fs) = fs"
  "trace (fresh_machine fs) = []"
  by (simp_all add: fresh_machine_def)

lemma standard_fds_fields:
  "STDOUT_FILENO < length (standard_fds n)" "STDERR_FILENO < length (standard_fds n)"
  "standard_fds n ! STDIN_FILENO = Some Terminal"
  "standard_fds n ! STDOUT_FILENO = Some Terminal"
  "standard_fds n ! STDERR_FILENO = Some Terminal"
  by (simp_all add: standard_fds_def STDIN_FILENO_def STDOUT_FILENO_def STDERR_FILENO_def
        nth_append)

lemma sys_open_existing:
  assumes "fs path = Some f0" "access_of K flags = Some acc" "lowest_free t = Some fd"
    and "\<not> (has_flag flags (O_CREAT K) \<and> has_flag flags (O_EXCL K))" "may_open f0 acc"
  shows "fst (sys_open K um junk path flags mode fs t) = Inr fd"
  using assms by (simp add: sys_open_def)

lemma redirect_stdout_existing:
  assumes "STDOUT_FILENO < length (table m)" "table m ! STDIN_FILENO \<noteq> None"
    and "disk m ''wc_output.txt'' = Some f0"
    and "access_of K (open_flags K) = Some acc"
    and "\<not> (has_flag (open_flags K) (O_CREAT K) \<and> has_flag (open_flags K) (O_EXCL K))"
    and "may_open f0 acc"
  shows "fst (redirect_stdout K H m) = Inr STDOUT_FILENO"
proof -
  obtain r fs2 t2 where o: "sys_open K (mask H) (stray H) ''wc_output.txt'' (open_flags K) None
      (disk m) (snd (sys_close STDOUT_FILENO (table m))) = (r, fs2, t2)"
    and rs: "redirect_stdout K H m = (r, m\<lparr>table := t2, disk := fs2\<rparr>)"
    by (rule redirect_stdout_cases)
  have "fst (sys_open K (mask H) (stray H) ''wc_output.txt'' (open_flags K) None
      (disk m) (snd (sys_close STDOUT_FILENO (table m)))) = Inr STDOUT_FILENO"
    using assms(3,4) lowest_free_stdout [OF assms(1,2)] assms(5,6) by (rule sys_open_existing)
  then show ?thesis by (simp add: o rs)
qed

lemma child_output_lands:
  assumes "STDOUT_FILENO < length (table m)" "table m ! STDIN_FILENO \<noteq> None"
    and "opened (redirect_child K H p m) = Inr fd"
    and "access_of K (open_flags K) = Some Read_write"
    and "loader H ''wc'' wc_argv = Some (Image (map (Pair STDOUT_FILENO) outs) d)"
  shows "trace (finish (redirect_child K H p m)) = trace m @ [Called_execvp p ''wc'' wc_argv] \<and>
         ended (redirect_child K H p m) = d \<and>
         (\<exists>f. disk (finish (redirect_child K H p m)) ''wc_output.txt'' = Some f \<and>
              take (length (concat outs)) (bytes f) = concat outs \<and>
              (disk m ''wc_output.txt'' = None \<or> has_flag (open_flags K) (O_TRUNC K)
                 \<longrightarrow> bytes f = concat outs))"
proof -
  let ?r = "redirect_child K H p m"
  obtain r m1 where rs: "redirect_stdout K H m = (r, m1)" by (cases "redirect_stdout K H m")
  note fields = redirect_child_fields [OF rs, of p]
  have r: "r = Inr fd" using fields(1) assms(3) by simp
  note ok = redirect_stdout_success [OF assms(1,2) rs [unfolded r]]
  from ok assms(4) obtain f where
        slot: "table m1 ! STDOUT_FILENO = Some (File_at ''wc_output.txt'' Read_write 0)"
    and f: "disk m1 ''wc_output.txt'' = Some f"
    and fresh: "disk m ''wc_output.txt'' = None \<or> has_flag (open_flags K) (O_TRUNC K)
                  \<longrightarrow> bytes f = []"
    by auto
  have tr: "trace m1 = trace m" and len: "STDOUT_FILENO < length (table m1)"
    using ok assms(1) by simp_all
  let ?e = "at_exec ?r"
  have e: "?e = m1\<lparr>trace := trace m1 @ [Called_execvp p ''wc'' wc_argv]\<rparr>" by (rule fields(2))
  have fin: "finish ?r = write_all (Child p) (map (Pair STDOUT_FILENO) outs) ?e"
    using fields(3) assms(5) by (simp add: execvp_wc)
  have "write_all (Child p) (map (Pair STDOUT_FILENO) outs) ?e
          = ?e\<lparr>table := (table ?e)[STDOUT_FILENO :=
                     Some (File_at ''wc_output.txt'' Read_write (0 + length (concat outs)))],
                 disk := (disk ?e)(''wc_output.txt'' \<mapsto>
                     f\<lparr>bytes := put_at 0 (concat outs) (bytes f)\<rparr>)\<rparr>"
    using len slot f by (intro write_all_to_file) (simp_all add: e)
  then have "trace (finish ?r) = trace ?e"
    and "disk (finish ?r) ''wc_output.txt''
           = Some (f\<lparr>bytes := put_at 0 (concat outs) (bytes f)\<rparr>)"
    by (simp_all add: fin)
  moreover have "ended ?r = d" using fields(4) assms(5) by (simp add: execvp_wc)
  ultimately show ?thesis using tr fresh by (auto simp: e put_at_def)
qed

text \<open>
  In a child whose descriptor 0 is open, the table is free at 1 and nowhere below once
  \<^verbatim>\<open>close(STDOUT_FILENO)\<close> has run, so an \<^verbatim>\<open>open\<close> that succeeds right after it
  returns exactly \<^verbatim>\<open>STDOUT_FILENO\<close> and binds that descriptor to \<^verbatim>\<open>wc_output.txt\<close>
  at offset 0. When the flags give read-write access and the loaded program writes on its
  standard output only, none of its text reaches the terminal, the file starts with all
  of it, and a file that did not exist before, or was cut by \<^verbatim>\<open>O_TRUNC\<close>, holds exactly
  that text.
\<close>

lemma open_success_gets_stdout:
  assumes "STDOUT_FILENO < length (table m)" "table m ! STDIN_FILENO \<noteq> None"
    and "opened (redirect_child K H p m) = Inr fd"
  shows "fd = STDOUT_FILENO
    \<and> lowest_free (snd (sys_close STDOUT_FILENO (table m))) = Some STDOUT_FILENO
    \<and> (\<exists>acc. table (at_exec (redirect_child K H p m)) ! STDOUT_FILENO
                = Some (File_at ''wc_output.txt'' acc 0))
    \<and> (\<forall>outs d. access_of K (open_flags K) = Some Read_write \<longrightarrow>
           loader H ''wc'' wc_argv = Some (Image (map (Pair STDOUT_FILENO) outs) d) \<longrightarrow>
           trace (finish (redirect_child K H p m)) = trace m @ [Called_execvp p ''wc'' wc_argv] \<and>
           (\<exists>f. disk (finish (redirect_child K H p m)) ''wc_output.txt'' = Some f \<and>
                take (length (concat outs)) (bytes f) = concat outs \<and>
                (disk m ''wc_output.txt'' = None \<or> has_flag (open_flags K) (O_TRUNC K)
                   \<longrightarrow> bytes f = concat outs)))"
proof -
  let ?r = "redirect_child K H p m"
  obtain r m1 where rs: "redirect_stdout K H m = (r, m1)" by (cases "redirect_stdout K H m")
  note fields = redirect_child_fields [OF rs, of p]
  have r: "r = Inr fd" using fields(1) assms(3) by simp
  note ok = redirect_stdout_success [OF assms(1,2) rs [unfolded r]]
  have fd: "fd = STDOUT_FILENO" using ok by simp
  have free: "lowest_free (snd (sys_close STDOUT_FILENO (table m))) = Some STDOUT_FILENO"
    using assms(1,2) by (rule lowest_free_stdout)
  have slot: "\<exists>acc. table (at_exec ?r) ! STDOUT_FILENO = Some (File_at ''wc_output.txt'' acc 0)"
    using ok by (auto simp: fields(2))
  have lands: "trace (finish ?r) = trace m @ [Called_execvp p ''wc'' wc_argv] \<and>
           (\<exists>f. disk (finish ?r) ''wc_output.txt'' = Some f \<and>
                take (length (concat outs)) (bytes f) = concat outs \<and>
                (disk m ''wc_output.txt'' = None \<or> has_flag (open_flags K) (O_TRUNC K)
                   \<longrightarrow> bytes f = concat outs))"
    if "access_of K (open_flags K) = Some Read_write"
      and "loader H ''wc'' wc_argv = Some (Image (map (Pair STDOUT_FILENO) outs) d)"
    for outs d
    using child_output_lands [OF assms that] by blast
  show ?thesis using fd free slot lands by blast
qed

text \<open>
  With the Linux values the flag word of the program carries \<^verbatim>\<open>O_CREAT\<close> and
  \<^verbatim>\<open>O_EXCL\<close>, so its \<^verbatim>\<open>open\<close> can succeed only where \<^verbatim>\<open>wc_output.txt\<close> does not
  exist yet.
\<close>

lemma open_flags_linux_excl:
  "access_of linux (open_flags linux) = Some Read_write"
  "has_flag (open_flags linux) (O_CREAT linux)" "has_flag (open_flags linux) (O_EXCL linux)"
  by (simp_all add: open_flags_def linux_def S_IRWXU_def has_flag_def access_of_def)

lemma sys_open_excl_existing:
  assumes "has_flag flags (O_CREAT K)" "has_flag flags (O_EXCL K)" "fs path = Some f"
  shows "fst (sys_open K um junk path flags mode fs t) \<noteq> Inr fd"
  using assms by (simp add: sys_open_def split: option.splits)

lemma open_success_needs_absent_on_linux:
  assumes "opened (redirect_child linux H p m) = Inr fd"
  shows "disk m ''wc_output.txt'' = None"
proof (rule ccontr)
  assume "disk m ''wc_output.txt'' \<noteq> None"
  then obtain f where f: "disk m ''wc_output.txt'' = Some f" by auto
  obtain r fs2 t2 where o: "sys_open linux (mask H) (stray H) ''wc_output.txt''
      (open_flags linux) None (disk m) (snd (sys_close STDOUT_FILENO (table m))) = (r, fs2, t2)"
    and rs: "redirect_stdout linux H m = (r, m\<lparr>table := t2, disk := fs2\<rparr>)"
    by (rule redirect_stdout_cases)
  have "r = Inr fd" using redirect_child_fields(1) [OF rs, of p] assms by simp
  moreover have "fst (sys_open linux (mask H) (stray H) ''wc_output.txt''
      (open_flags linux) None (disk m) (snd (sys_close STDOUT_FILENO (table m)))) \<noteq> Inr fd"
    using open_flags_linux_excl(2,3) f by (rule sys_open_excl_existing)
  ultimately show False using o by simp
qed

text \<open>
  C6, at the input where the code departs from it. With the Linux values and
  \<^verbatim>\<open>wc_output.txt\<close> present, in a child whose descriptor 0 is open: after
  \<^verbatim>\<open>close(STDOUT_FILENO)\<close> descriptor 1 is the lowest free one, but the \<^verbatim>\<open>open\<close>
  that follows is assigned no descriptor at all. It fails with \<^verbatim>\<open>EEXIST\<close>, because the
  bits of \<^verbatim>\<open>S_IRWXU\<close> in the flag word are read as \<^verbatim>\<open>O_EXCL\<close>. \<^verbatim>\<open>wc\<close> is loaded
  with descriptor 1 closed, and what it writes on its standard output reaches neither the
  terminal nor the file, which keeps its old contents.
\<close>

theorem stdout_lost_on_linux:
  "table (fresh_machine old_disk) ! STDIN_FILENO = Some Terminal
   \<and> lowest_free (snd (sys_close STDOUT_FILENO (table (fresh_machine old_disk))))
        = Some STDOUT_FILENO
   \<and> opened (redirect_child linux (wc_host 0 ''new'') 1 (fresh_machine old_disk)) = Inl EEXIST
   \<and> table (at_exec (redirect_child linux (wc_host 0 ''new'') 1 (fresh_machine old_disk)))
        ! STDOUT_FILENO = None
   \<and> trace (finish (redirect_child linux (wc_host 0 ''new'') 1 (fresh_machine old_disk)))
        = [Called_execvp 1 ''wc'' wc_argv]
   \<and> disk (finish (redirect_child linux (wc_host 0 ''new'') 1 (fresh_machine old_disk)))
        ''wc_output.txt'' = Some \<lparr>perms = 0x1C0, bytes = ''old''\<rparr>"
  by code_simp

text \<open>
  C8. Whatever \<^verbatim>\<open>open\<close> returned, the next thing the child does is the call of
  \<^verbatim>\<open>execvp\<close> for \<^verbatim>\<open>wc\<close>: nothing is printed before it, and the child ends as the
  loaded program ends, or with code 1 when \<^verbatim>\<open>execvp\<close> itself failed. When \<^verbatim>\<open>open\<close>
  failed, the program is loaded all the same, on a table whose standard output is closed
  and a file system left as it was.
\<close>

theorem open_failure_unchecked:
  "(\<exists>rest. trace (finish (redirect_child K H p m))
             = trace m @ Called_execvp p ''wc'' wc_argv # rest)
   \<and> ended (redirect_child K H p m)
        = (case loader H ''wc'' wc_argv of Some (Image ws d) \<Rightarrow> d | None \<Rightarrow> Exit_code 1)
   \<and> (\<forall>e. opened (redirect_child K H p m) = Inl e \<longrightarrow>
          table (at_exec (redirect_child K H p m)) = (table m)[STDOUT_FILENO := None] \<and>
          disk (at_exec (redirect_child K H p m)) = disk m \<and>
          (\<forall>ws d. loader H ''wc'' wc_argv = Some (Image ws d) \<longrightarrow>
             finish (redirect_child K H p m)
               = write_all (Child p) ws (at_exec (redirect_child K H p m))))"
proof -
  let ?r = "redirect_child K H p m"
  obtain r fs2 t2 where o: "sys_open K (mask H) (stray H) ''wc_output.txt'' (open_flags K) None
      (disk m) (snd (sys_close STDOUT_FILENO (table m))) = (r, fs2, t2)"
    and rs: "redirect_stdout K H m = (r, m\<lparr>table := t2, disk := fs2\<rparr>)"
    by (rule redirect_stdout_cases)
  note fields = redirect_child_fields [OF rs, of p]
  have e: "trace (at_exec ?r) = trace m @ [Called_execvp p ''wc'' wc_argv]"
    by (simp add: fields(2))
  have "\<exists>rest. trace (finish ?r) = trace (at_exec ?r) @ rest"
    unfolding fields(3) using trace_write_all trace_sys_write
    by (auto split: option.splits image.splits)
  then have 1: "\<exists>rest. trace (finish ?r) = trace m @ Called_execvp p ''wc'' wc_argv # rest"
    unfolding e by simp
  have 2: "table (at_exec ?r) = (table m)[STDOUT_FILENO := None] \<and> disk (at_exec ?r) = disk m"
    if "opened ?r = Inl err" for err
  proof -
    have "r = Inl err" using that fields(1) by simp
    then have "fs2 = disk m \<and> t2 = snd (sys_close STDOUT_FILENO (table m))"
      using sys_open_failure o by blast
    then show ?thesis by (simp add: fields(2) snd_sys_close)
  qed
  have 3: "finish ?r = write_all (Child p) ws (at_exec ?r)"
    if "loader H ''wc'' wc_argv = Some (Image ws d)" for ws d
    using that fields(3) by (simp add: execvp_wc)
  show ?thesis using 1 2 3 fields(4) unfolding execvp_wc by blast
qed

text \<open>
  C7, at the input where the code departs from it. With the Linux values,
  \<^verbatim>\<open>O_RDWR | O_CREAT | O_TRUNC | S_IRWXU\<close> is the flag word
  \<^verbatim>\<open>O_RDWR | O_CREAT | O_EXCL | O_NOCTTY | O_TRUNC\<close> (octal 0400, hexadecimal 100, is
  \<^verbatim>\<open>O_NOCTTY\<close>): the bits of \<^verbatim>\<open>S_IRWXU\<close> are read as flags. So an existing
  \<^verbatim>\<open>wc_output.txt\<close> is not truncated: \<^verbatim>\<open>open\<close> fails with \<^verbatim>\<open>EEXIST\<close> and the
  file keeps its contents. And as no mode is passed, a file that is created gets its
  permission bits from the stray third argument: none at all when that is 0.
\<close>

theorem open_flags_on_linux:
  "open_flags linux = O_RDWR linux OR O_CREAT linux OR O_EXCL linux OR 0x100 OR O_TRUNC linux
   \<and> opened (redirect_child linux (wc_host 0 ''new'') 1 (fresh_machine old_disk)) = Inl EEXIST
   \<and> disk (finish (redirect_child linux (wc_host 0 ''new'') 1 (fresh_machine old_disk)))
        ''wc_output.txt'' = Some \<lparr>perms = 0x1C0, bytes = ''old''\<rparr>
   \<and> disk (finish (redirect_child linux (wc_host 0 ''new'') 1 (fresh_machine Map.empty)))
        ''wc_output.txt'' = Some \<lparr>perms = 0, bytes = ''new''\<rparr>"
  by code_simp

text \<open>
  C9, at the input where the code departs from it. Two runs in a row with the Linux
  values, \<^verbatim>\<open>wc\<close> printing \<^verbatim>\<open>first\<close> in the first run and \<^verbatim>\<open>second\<close> in the
  second: both runs exit with 0, and the file holds \<^verbatim>\<open>first\<close> after the second run,
  whose \<^verbatim>\<open>open\<close> failed with \<^verbatim>\<open>EEXIST\<close>.
\<close>

theorem second_run_on_linux:
  "disk (fst (redirect_main linux (wc_host 0 ''second'')
      (fresh_machine (disk (fst (redirect_main linux (wc_host 0 ''first'')
         (fresh_machine Map.empty))))))) ''wc_output.txt''
     = Some \<lparr>perms = 0, bytes = ''first''\<rparr>
   \<and> snd (redirect_main linux (wc_host 0 ''first'') (fresh_machine Map.empty)) = 0
   \<and> snd (redirect_main linux (wc_host 0 ''second'')
      (fresh_machine (disk (fst (redirect_main linux (wc_host 0 ''first'')
         (fresh_machine Map.empty)))))) = 0"
  by code_simp

lemma redirect_main_disk:
  assumes "\<not> fork_fails H 0" "STDOUT_FILENO < length (table m)"
    and "table m ! STDOUT_FILENO = Some Terminal"
  shows "\<exists>greeting. disk (fst (redirect_main K H m))
           = disk (finish (redirect_child K H (Suc 0)
               (m\<lparr>trace := trace m @ [Printed Parent STDOUT_FILENO greeting, Spawned (Suc 0)]\<rparr>)))"
proof -
  define hello where "hello = ''hello (pid:'' @ decimal (self H) @ '')'' @ [newline]"
  define bye where "bye = ''parent of '' @ decimal (Suc 0) @ '' (rc_wait: '' @ decimal (Suc 0)
                     @ '') (pid: '' @ decimal (self H) @ '')'' @ [newline]"
  define m1 where "m1 = m\<lparr>trace := trace m @ [Printed Parent STDOUT_FILENO hello]\<rparr>"
  define c where "c = redirect_child K H (Suc 0) (m1\<lparr>trace := trace m1 @ [Spawned (Suc 0)]\<rparr>)"
  define m2 where "m2 = m1\<lparr>disk := disk (finish c),
         trace := trace (finish c) @ [Terminated (Suc 0) (ended c), Reaped (Suc 0)]\<rparr>"
  have 1: "sys_write Parent STDOUT_FILENO hello m = m1"
    using assms(2,3) by (simp add: sys_write_terminal m1_def)
  have 2: "sys_write Parent STDOUT_FILENO bye m2 = m2\<lparr>trace := trace m2 @ [Printed Parent STDOUT_FILENO bye]\<rparr>"
    using assms(2,3) by (intro sys_write_terminal) (simp_all add: m2_def m1_def)
  have "redirect_main K H m = (sys_write Parent STDOUT_FILENO bye m2, 0)"
    using assms(1) unfolding redirect_main_def Let_def hello_def [symmetric] 1
      c_def [symmetric] m2_def [symmetric] bye_def [symmetric]
    by simp
  then have "disk (fst (redirect_main K H m)) = disk m2"
    by (simp add: 2)
  then have "disk (fst (redirect_main K H m)) = disk (finish c)"
    by (simp add: m2_def)
  moreover have "m1\<lparr>trace := trace m1 @ [Spawned (Suc 0)]\<rparr>
      = m\<lparr>trace := trace m @ [Printed Parent STDOUT_FILENO hello, Spawned (Suc 0)]\<rparr>"
    by (simp add: m1_def)
  ultimately show ?thesis unfolding c_def by metis
qed

text \<open>
  On every platform where the flag word gives read-write access with \<^verbatim>\<open>O_TRUNC\<close> and
  without the pair \<^verbatim>\<open>O_CREAT\<close>, \<^verbatim>\<open>O_EXCL\<close>, a run on a file system where
  \<^verbatim>\<open>wc_output.txt\<close> exists and may be read and written by its owner leaves in it exactly
  what \<^verbatim>\<open>wc\<close> printed in that run.
\<close>

lemma rerun_replaces_contents:
  assumes "access_of K (open_flags K) = Some Read_write"
    and "has_flag (open_flags K) (O_TRUNC K)"
    and "\<not> (has_flag (open_flags K) (O_CREAT K) \<and> has_flag (open_flags K) (O_EXCL K))"
    and "\<not> fork_fails H 0"
    and "loader H ''wc'' wc_argv = Some (Image (map (Pair STDOUT_FILENO) outs) d)"
    and "fs ''wc_output.txt'' = Some f0" "may_open f0 Read_write"
  shows "\<exists>f. disk (fst (redirect_main K H (fresh_machine fs))) ''wc_output.txt'' = Some f \<and>
             bytes f = concat outs"
proof -
  obtain greeting where g: "disk (fst (redirect_main K H (fresh_machine fs)))
      = disk (finish (redirect_child K H (Suc 0) ((fresh_machine fs)\<lparr>trace :=
           trace (fresh_machine fs) @ [Printed Parent STDOUT_FILENO greeting, Spawned (Suc 0)]\<rparr>)))"
    using redirect_main_disk [OF assms(4), of "fresh_machine fs" K]
    by (auto simp: fresh_machine_fields standard_fds_fields)
  let ?m = "(fresh_machine fs)\<lparr>trace :=
           trace (fresh_machine fs) @ [Printed Parent STDOUT_FILENO greeting, Spawned (Suc 0)]\<rparr>"
  let ?c = "redirect_child K H (Suc 0) ?m"
  have t: "STDOUT_FILENO < length (table ?m)" "table ?m ! STDIN_FILENO \<noteq> None"
    by (simp_all add: fresh_machine_fields standard_fds_fields)
  have d: "disk ?m ''wc_output.txt'' = Some f0" using assms(6) by (simp add: fresh_machine_fields)
  have "fst (redirect_stdout K H ?m) = Inr STDOUT_FILENO"
    using t d assms(1,3,7) by (rule redirect_stdout_existing)
  then obtain m' where "redirect_stdout K H ?m = (Inr STDOUT_FILENO, m')"
    by (cases "redirect_stdout K H ?m") simp
  then have op: "opened ?c = Inr STDOUT_FILENO" by (simp add: redirect_child_fields(1))
  from child_output_lands [OF t op assms(1,5)] assms(2)
  obtain f where f: "disk (finish ?c) ''wc_output.txt'' = Some f" "bytes f = concat outs"
    by blast
  then show ?thesis using g by simp
qed

lemma open_success_gets_stdout_first_run:
  "STDOUT_FILENO < length (table (fresh_machine Map.empty)) \<and>
   table (fresh_machine Map.empty) ! STDIN_FILENO \<noteq> None \<and>
   opened (redirect_child linux (wc_host 0 ''out'') 1 (fresh_machine Map.empty)) = Inr 1 \<and>
   1 = STDOUT_FILENO \<and>
   lowest_free (snd (sys_close STDOUT_FILENO (table (fresh_machine Map.empty)))) = Some STDOUT_FILENO \<and>
   access_of linux (open_flags linux) = Some Read_write \<and>
   loader (wc_host 0 ''out'') ''wc'' wc_argv
     = Some (Image (map (Pair STDOUT_FILENO) [''out'']) (Exit_code 0)) \<and>
   trace (finish (redirect_child linux (wc_host 0 ''out'') 1 (fresh_machine Map.empty)))
     = trace (fresh_machine Map.empty) @ [Called_execvp 1 ''wc'' wc_argv] \<and>
   (\<exists>f. disk (finish (redirect_child linux (wc_host 0 ''out'') 1 (fresh_machine Map.empty)))
          ''wc_output.txt'' = Some f \<and> bytes f = concat [''out''])"
proof -
  have 1: "STDOUT_FILENO < length (table (fresh_machine Map.empty))" by code_simp
  have 2: "table (fresh_machine Map.empty) ! STDIN_FILENO \<noteq> None" by code_simp
  have 3: "opened (redirect_child linux (wc_host 0 ''out'') 1 (fresh_machine Map.empty)) = Inr 1"
    by code_simp
  have 4: "access_of linux (open_flags linux) = Some Read_write" by code_simp
  have 5: "loader (wc_host 0 ''out'') ''wc'' wc_argv
     = Some (Image (map (Pair STDOUT_FILENO) [''out'']) (Exit_code 0))"
    by (simp add: wc_host_def)
  have 6: "disk (fresh_machine Map.empty) ''wc_output.txt'' = None"
    by (simp add: fresh_machine_def)
  note th = open_success_gets_stdout [OF 1 2 3]
  from th have a: "1 = STDOUT_FILENO"
    and b: "lowest_free (snd (sys_close STDOUT_FILENO (table (fresh_machine Map.empty))))
              = Some STDOUT_FILENO"
    by blast+
  from th 4 5 have c: "trace (finish (redirect_child linux (wc_host 0 ''out'') 1 (fresh_machine Map.empty)))
     = trace (fresh_machine Map.empty) @ [Called_execvp 1 ''wc'' wc_argv] \<and>
     (\<exists>f. disk (finish (redirect_child linux (wc_host 0 ''out'') 1 (fresh_machine Map.empty)))
          ''wc_output.txt'' = Some f \<and>
          take (length (concat [''out''])) (bytes f) = concat [''out''] \<and>
          (disk (fresh_machine Map.empty) ''wc_output.txt'' = None \<longrightarrow> bytes f = concat [''out'']))"
    by blast
  show ?thesis using 1 2 3 4 5 6 a b c by blast
qed

theorem open_failure_unchecked_witness:
  "opened (redirect_child linux (wc_host 0 ''new'') 1 (fresh_machine old_disk)) = Inl EEXIST \<and>
   table (at_exec (redirect_child linux (wc_host 0 ''new'') 1 (fresh_machine old_disk)))
     = (table (fresh_machine old_disk))[STDOUT_FILENO := None] \<and>
   disk (at_exec (redirect_child linux (wc_host 0 ''new'') 1 (fresh_machine old_disk)))
     = disk (fresh_machine old_disk) \<and>
   (\<exists>rest. trace (finish (redirect_child linux (wc_host 0 ''new'') 1 (fresh_machine old_disk)))
      = trace (fresh_machine old_disk) @ Called_execvp 1 ''wc'' wc_argv # rest)"
proof -
  have 1: "opened (redirect_child linux (wc_host 0 ''new'') 1 (fresh_machine old_disk)) = Inl EEXIST"
    by code_simp
  show ?thesis
    using 1 open_failure_unchecked [of linux "wc_host 0 ''new''" 1 "fresh_machine old_disk"]
    by blast
qed

text \<open>
  With the BSD values the bits of \<^verbatim>\<open>S_IRWXU\<close> do not meet \<^verbatim>\<open>O_EXCL\<close>. There the second
  run replaces the contents when the stray mode of the first run happened to give the
  owner read and write permission (octal 0777 here), and fails with \<^verbatim>\<open>EACCES\<close>, leaving
  the first run's output, when it did not (0 here).
\<close>

lemma second_run_on_bsd:
  "disk (fst (redirect_main bsd (wc_host 0x1FF ''second'')
      (fresh_machine (disk (fst (redirect_main bsd (wc_host 0x1FF ''first'')
         (fresh_machine Map.empty))))))) ''wc_output.txt''
     = Some \<lparr>perms = 0x1ED, bytes = ''second''\<rparr>
   \<and> disk (fst (redirect_main bsd (wc_host 0 ''second'')
      (fresh_machine (disk (fst (redirect_main bsd (wc_host 0 ''first'')
         (fresh_machine Map.empty))))))) ''wc_output.txt''
     = Some \<lparr>perms = 0, bytes = ''first''\<rparr>"
  by code_simp

end
